theory Spec2Isabelle
  imports Complex_Main "HOL-Library.Word"
begin

section \<open>Python values and exceptions\<close>

text \<open>
  The bot of \<^verbatim>\<open>stats.py\<close> is dynamically typed: an action's parameters come from a JSON file
  or from the entry fields of the editor, so every parameter is ``some Python value''.
  \<open>pyval\<close> is the universe of the values that can occur: the JSON values (a dict has string
  keys and keeps its insertion order, so it is an association list) and the tuple that
  \<^verbatim>\<open>FIND_TEMPLATE\<close> stores under \<^verbatim>\<open>last_match_xy\<close>. A Python \<^verbatim>\<open>float\<close> is the real number it
  denotes (no infinities, no NaN), so comparing two floats and taking their maximum are
  exact. Float arithmetic rounds, and is therefore not the arithmetic of the reals: the one
  float operation of the code modelled here, the subtraction in \<^verbatim>\<open>find_template\<close>, is a function of the
  outside world below. The conversion of an integer to a float is taken to be exact.
\<close>

datatype pyval =
    PNone
  | PBool bool
  | PInt int
  | PFloat real
  | PStr string
  | PTuple "pyval list"
  | PList "pyval list"
  | PDict "(string \<times> pyval) list"

text \<open>The exceptions the modelled code can raise; \<open>Cv2Error\<close> is the matcher's own failure.\<close>

datatype exn =
    KeyError string
  | ValueError
  | TypeError
  | AttributeError
  | Cv2Error

section \<open>Images and the outside world\<close>

text \<open>
  A numpy image of shape \<^verbatim>\<open>(h, w, 3)\<close> with \<^verbatim>\<open>uint8\<close> channels: \<open>img_px im y x\<close> is the pixel
  in row \<open>y\<close> and column \<open>x\<close>, its channels in the order blue, green, red.
\<close>

record image =
  img_h :: nat
  img_w :: nat
  img_px :: "nat \<Rightarrow> nat \<Rightarrow> 8 word \<times> 8 word \<times> 8 word"

text \<open>The dict that \<^verbatim>\<open>find_template\<close> stores in \<^verbatim>\<open>last_match\<close>, with its six keys.\<close>

record match_result =
  m_name :: string
  m_x :: int
  m_y :: int
  m_w :: int
  m_h :: int
  m_score :: real

text \<open>
  Everything the program asks of libraries outside the repository is a field of \<open>world\<close>:
  \<^item> \<open>screenshot k\<close>: the frame that the \<open>k\<close>-th call of \<^verbatim>\<open>pyautogui.screenshot\<close> returns,
    already converted to BGR;
  \<^item> \<open>isfile\<close>, \<open>imread\<close>: \<^verbatim>\<open>os.path.isfile\<close> and \<^verbatim>\<open>cv2.imread\<close> (\<open>None\<close> for an unreadable file);
  \<^item> \<open>matchTemplate src tmpl method\<close>: \<^verbatim>\<open>cv2.matchTemplate\<close> followed by \<^verbatim>\<open>cv2.minMaxLoc\<close>,
    that is \<open>(min_val, max_val, min_loc, max_loc)\<close>, or \<open>None\<close> when OpenCV raises;
  \<^item> \<open>eval_bool expr vars last_match\<close>: \<^verbatim>\<open>bool(eval(expr, {"__builtins__": {}}, env))\<close>,
    \<open>None\<close> when it raises; the expression is taken not to mutate its two bindings;
  \<^item> \<open>float_sub a b\<close>: the float \<^verbatim>\<open>a - b\<close>, that is the difference as IEEE double arithmetic
    rounds it;
  \<^item> \<open>int_of_str\<close>, \<open>float_of_str\<close>: Python's \<^verbatim>\<open>int(s)\<close> and \<^verbatim>\<open>float(s)\<close> on a string
    (\<open>None\<close> for \<^verbatim>\<open>ValueError\<close>);
  \<^item> \<open>repr\<close>: the text that \<^verbatim>\<open>str\<close> and an f-string give for a value that is not a string.
\<close>

record world =
  screenshot :: "nat \<Rightarrow> image"
  isfile :: "string \<Rightarrow> bool"
  imread :: "string \<Rightarrow> image option"
  matchTemplate :: "image \<Rightarrow> image \<Rightarrow> int \<Rightarrow> (real \<times> real \<times> (int \<times> int) \<times> (int \<times> int)) option"
  eval_bool :: "string \<Rightarrow> (string \<rightharpoonup> pyval) \<Rightarrow> match_result option \<Rightarrow> bool option"
  float_sub :: "real \<Rightarrow> real \<Rightarrow> real"
  int_of_str :: "string \<Rightarrow> int option"
  float_of_str :: "string \<Rightarrow> real option"
  repr :: "pyval \<Rightarrow> string"

text \<open>The calls the program makes on the input-injection provider and on \<^verbatim>\<open>time.sleep\<close>.\<close>

datatype io_event =
    Click int int int string real
  | MoveTo int int real
  | Press string
  | Typewrite string real
  | Sleep real

text \<open>The constants of OpenCV that \<^verbatim>\<open>find_template\<close> names.\<close>

definition TM_SQDIFF :: int where "TM_SQDIFF = 0"
definition TM_SQDIFF_NORMED :: int where "TM_SQDIFF_NORMED = 1"
definition TM_CCORR :: int where "TM_CCORR = 2"
definition TM_CCORR_NORMED :: int where "TM_CCORR_NORMED = 3"
definition TM_CCOEFF :: int where "TM_CCOEFF = 4"
definition TM_CCOEFF_NORMED :: int where "TM_CCOEFF_NORMED = 5"

section \<open>Python's conversions\<close>

text \<open>\<^verbatim>\<open>int(v)\<close>: a float is truncated towards zero, a string is parsed, a container is refused.\<close>

fun py_int :: "world \<Rightarrow> pyval \<Rightarrow> exn + int" where
  "py_int wd (PInt i) = Inr i"
| "py_int wd (PBool b) = Inr (if b then 1 else 0)"
| "py_int wd (PFloat r) = Inr (if 0 \<le> r then \<lfloor>r\<rfloor> else \<lceil>r\<rceil>)"
| "py_int wd (PStr s) = (case int_of_str wd s of None \<Rightarrow> Inl ValueError | Some i \<Rightarrow> Inr i)"
| "py_int wd v = Inl TypeError"

fun py_float :: "world \<Rightarrow> pyval \<Rightarrow> exn + real" where
  "py_float wd (PFloat r) = Inr r"
| "py_float wd (PInt i) = Inr (of_int i)"
| "py_float wd (PBool b) = Inr (if b then 1 else 0)"
| "py_float wd (PStr s) = (case float_of_str wd s of None \<Rightarrow> Inl ValueError | Some r \<Rightarrow> Inr r)"
| "py_float wd v = Inl TypeError"

fun py_str :: "world \<Rightarrow> pyval \<Rightarrow> string" where
  "py_str wd (PStr s) = s"
| "py_str wd v = repr wd v"

fun py_bool :: "pyval \<Rightarrow> bool" where
  "py_bool PNone = False"
| "py_bool (PBool b) = b"
| "py_bool (PInt i) = (i \<noteq> 0)"
| "py_bool (PFloat r) = (r \<noteq> 0)"
| "py_bool (PStr s) = (s \<noteq> [])"
| "py_bool (PTuple vs) = (vs \<noteq> [])"
| "py_bool (PList vs) = (vs \<noteq> [])"
| "py_bool (PDict kvs) = (kvs \<noteq> [])"

text \<open>\<^verbatim>\<open>p.get(key, default)\<close>: only a dict has the method.\<close>

fun py_get :: "pyval \<Rightarrow> string \<Rightarrow> pyval \<Rightarrow> exn + pyval" where
  "py_get (PDict kvs) k dflt = Inr (case map_of kvs k of None \<Rightarrow> dflt | Some v \<Rightarrow> v)"
| "py_get v k dflt = Inl AttributeError"

text \<open>Sequencing in the presence of exceptions.\<close>

definition bindE :: "exn + 'a \<Rightarrow> ('a \<Rightarrow> exn + 'b) \<Rightarrow> exn + 'b" where
  "bindE m f = (case m of Inl e \<Rightarrow> Inl e | Inr a \<Rightarrow> f a)"

section \<open>Action model\<close>

text \<open>
  \<^verbatim>\<open>BotAction\<close> is a dataclass with the fields \<^verbatim>\<open>type\<close> and \<^verbatim>\<open>params\<close>. Its annotations
  (\<^verbatim>\<open>str\<close>, \<^verbatim>\<open>Dict[str, Any]\<close>) are not enforced, so both fields hold any value.
\<close>

record BotAction =
  type :: pyval
  params :: pyval

definition SUPPORTED_ACTIONS :: "string list" where
  "SUPPORTED_ACTIONS =
    [''WAIT'', ''SCREENSHOT'', ''LOAD_TEMPLATE'', ''FIND_TEMPLATE'', ''CLICK_MATCH'', ''CLICK_AT'',
     ''MOVE_MOUSE'', ''CHECK_PIXEL'', ''SET_VAR'', ''IF_GOTO'', ''PRESS_KEY'', ''TYPE_TEXT'']"

definition to_dict :: "BotAction \<Rightarrow> (string \<times> pyval) list" where
  "to_dict a = [(''type'', type a), (''params'', params a)]"

text \<open>\<^verbatim>\<open>d["type"]\<close> raises \<^verbatim>\<open>KeyError\<close> on a missing key; \<^verbatim>\<open>d.get("params", {})\<close> does not.\<close>

definition from_dict :: "(string \<times> pyval) list \<Rightarrow> exn + BotAction" where
  "from_dict d =
    (case map_of d ''type'' of
       None \<Rightarrow> Inl (KeyError ''type'')
     | Some t \<Rightarrow>
         Inr \<lparr>type = t, params = (case map_of d ''params'' of None \<Rightarrow> PDict [] | Some p \<Rightarrow> p)\<rparr>)"

text \<open>
  The two comprehensions of \<^verbatim>\<open>save_script\<close> and \<^verbatim>\<open>load_script\<close>:
  \<^verbatim>\<open>[a.to_dict() for a in self.actions]\<close> and \<^verbatim>\<open>[BotAction.from_dict(d) for d in data]\<close>;
  the second stops at the first record that raises.
\<close>

definition to_dicts :: "BotAction list \<Rightarrow> (string \<times> pyval) list list" where
  "to_dicts acts = map to_dict acts"

fun from_dicts :: "(string \<times> pyval) list list \<Rightarrow> exn + BotAction list" where
  "from_dicts [] = Inr []"
| "from_dicts (d # ds) =
    (case from_dict d of
       Inl e \<Rightarrow> Inl e
     | Inr a \<Rightarrow> (case from_dicts ds of Inl e \<Rightarrow> Inl e | Inr as \<Rightarrow> Inr (a # as)))"

section \<open>Bot runtime\<close>

text \<open>
  The fields of \<^verbatim>\<open>BotRuntime\<close>. The lock only makes each access of \<open>stop_requested\<close> atomic,
  which state passing does anyway. Two fields are added for the outside world: \<open>shots\<close>
  counts the screenshots taken so far (it selects the next frame of \<open>screenshot\<close>), and
  \<open>io_log\<close> records, in order, every call made on \<^verbatim>\<open>pyautogui\<close>'s mouse and keyboard
  functions and on \<^verbatim>\<open>time.sleep\<close>.
\<close>

record runtime =
  vars :: "string \<rightharpoonup> pyval"
  templates :: "string \<rightharpoonup> image"
  last_screenshot_bgr :: "image option"
  last_match :: "match_result option"
  stop_requested :: bool
  shots :: nat
  io_log :: "io_event list"

definition request_stop :: "runtime \<Rightarrow> runtime" where
  "request_stop rt = rt\<lparr>stop_requested := True\<rparr>"

definition clear_stop :: "runtime \<Rightarrow> runtime" where
  "clear_stop rt = rt\<lparr>stop_requested := False\<rparr>"

definition should_stop :: "runtime \<Rightarrow> bool" where
  "should_stop rt = stop_requested rt"

definition take_screenshot :: "world \<Rightarrow> runtime \<Rightarrow> image \<times> runtime" where
  "take_screenshot wd rt =
    (let bgr = screenshot wd (shots rt)
     in (bgr, rt\<lparr>last_screenshot_bgr := Some bgr, shots := Suc (shots rt)\<rparr>))"

definition load_template :: "world \<Rightarrow> string \<Rightarrow> string \<Rightarrow> runtime \<Rightarrow> bool \<times> runtime" where
  "load_template wd name path rt =
    (if \<not> isfile wd path then (False, rt)
     else case imread wd path of
            None \<Rightarrow> (False, rt)
          | Some im \<Rightarrow> (True, rt\<lparr>templates := (templates rt)(name \<mapsto> im)\<rparr>))"

text \<open>
  \<^verbatim>\<open>if self.last_screenshot_bgr is None: self.take_screenshot()\<close>, then the frame that the
  cache holds: the opening of \<^verbatim>\<open>find_template\<close> and of \<^verbatim>\<open>check_pixel\<close>.
\<close>

definition ensure_screenshot :: "world \<Rightarrow> runtime \<Rightarrow> image \<times> runtime" where
  "ensure_screenshot wd rt =
    (case last_screenshot_bgr rt of None \<Rightarrow> take_screenshot wd rt | Some s \<Rightarrow> (s, rt))"

definition find_template ::
  "world \<Rightarrow> string \<Rightarrow> real \<Rightarrow> int \<Rightarrow> runtime \<Rightarrow> (exn + match_result option) \<times> runtime" where
  "find_template wd name threshold method rt =
    (let (src, rt1) = ensure_screenshot wd rt
     in case templates rt1 name of
          None \<Rightarrow> (Inr None, rt1)
        | Some tmpl \<Rightarrow>
            (case matchTemplate wd src tmpl method of
               None \<Rightarrow> (Inl Cv2Error, rt1)
             | Some (min_val, max_val, min_loc, max_loc) \<Rightarrow>
                 (let (score, loc) =
                        (if method \<in> {TM_SQDIFF, TM_SQDIFF_NORMED}
                         then (float_sub wd 1 min_val, min_loc)
                         else (max_val, max_loc));
                      h = int (img_h tmpl);
                      w = int (img_w tmpl)
                  in if score \<ge> threshold
                     then (let m = \<lparr>m_name = name, m_x = fst loc, m_y = snd loc,
                                     m_w = w, m_h = h, m_score = score\<rparr>
                           in (Inr (Some m), rt1\<lparr>last_match := Some m\<rparr>))
                     else (Inr None, rt1\<lparr>last_match := None\<rparr>))))"

definition click_match ::
  "string \<Rightarrow> int \<Rightarrow> real \<Rightarrow> bool \<Rightarrow> int \<times> int \<Rightarrow> runtime \<Rightarrow> bool \<times> runtime" where
  "click_match button clicks interval center offset rt =
    (case last_match rt of
       None \<Rightarrow> (False, rt)
     | Some m \<Rightarrow>
         (let x = m_x m + (if center then m_w m div 2 else 0) + fst offset;
              y = m_y m + (if center then m_h m div 2 else 0) + snd offset
          in (True, rt\<lparr>io_log := io_log rt @ [Click x y clicks button interval]\<rparr>)))"

definition click_at :: "int \<Rightarrow> int \<Rightarrow> string \<Rightarrow> int \<Rightarrow> real \<Rightarrow> runtime \<Rightarrow> runtime" where
  "click_at x y button clicks interval rt =
    rt\<lparr>io_log := io_log rt @ [Click x y clicks button interval]\<rparr>"

definition move_mouse :: "int \<Rightarrow> int \<Rightarrow> real \<Rightarrow> runtime \<Rightarrow> runtime" where
  "move_mouse x y duration rt = rt\<lparr>io_log := io_log rt @ [MoveTo x y (max 0 duration)]\<rparr>"

definition press_key :: "string \<Rightarrow> runtime \<Rightarrow> runtime" where
  "press_key key rt = rt\<lparr>io_log := io_log rt @ [Press key]\<rparr>"

definition type_text :: "string \<Rightarrow> real \<Rightarrow> runtime \<Rightarrow> runtime" where
  "type_text text interval rt = rt\<lparr>io_log := io_log rt @ [Typewrite text (max 0 interval)]\<rparr>"

definition check_pixel ::
  "world \<Rightarrow> int \<Rightarrow> int \<Rightarrow> int \<Rightarrow> int \<Rightarrow> int \<Rightarrow> int \<Rightarrow> runtime \<Rightarrow> bool \<times> runtime" where
  "check_pixel wd x y r g b tolerance rt =
    (let (shot, rt1) = ensure_screenshot wd rt;
         h = int (img_h shot);
         w = int (img_w shot)
     in if x < 0 \<or> y < 0 \<or> x \<ge> w \<or> y \<ge> h then (False, rt1)
        else (let (c0, c1, c2) = img_px shot (nat y) (nat x);
                  br = uint c0; bg = uint c1; bb = uint c2;
                  tr = b; tg = g; tb = r
              in (\<bar>br - tr\<bar> \<le> tolerance \<and> \<bar>bg - tg\<bar> \<le> tolerance \<and> \<bar>bb - tb\<bar> \<le> tolerance,
                  rt1)))"

definition set_var :: "string \<Rightarrow> pyval \<Rightarrow> runtime \<Rightarrow> runtime" where
  "set_var name v rt = rt\<lparr>vars := (vars rt)(name \<mapsto> v)\<rparr>"

definition get_var :: "string \<Rightarrow> pyval \<Rightarrow> runtime \<Rightarrow> pyval" where
  "get_var name dflt rt = (case vars rt name of None \<Rightarrow> dflt | Some v \<Rightarrow> v)"

section \<open>The editor window: the state the interpreter works on\<close>

text \<open>
  Of \<^verbatim>\<open>BotGUI\<close> the interpreter touches the script, the runtime, the status line, the
  template list box and the message boxes it opens. A message box is kept as a value that
  holds what the box is about, not as its formatted text; \<^verbatim>\<open>update_preview\<close> only redraws
  the canvas and the variables pane, and is left out.
\<close>

datatype dialog =
    LoadTemplateFailed string string
  | NoLastMatch
  | UnknownAction pyval
  | ActionError int pyval exn

record bot_gui =
  actions :: "BotAction list"
  runtime :: runtime
  status :: string
  dialogs :: "dialog list"
  templates_list :: "string list"

definition set_status :: "string \<Rightarrow> bot_gui \<Rightarrow> bot_gui" where
  "set_status text g = g\<lparr>status := text\<rparr>"

definition on_runtime :: "(runtime \<Rightarrow> runtime) \<Rightarrow> bot_gui \<Rightarrow> bot_gui" where
  "on_runtime f g = g\<lparr>runtime := f (runtime g)\<rparr>"

definition show_dialog :: "dialog \<Rightarrow> bot_gui \<Rightarrow> bot_gui" where
  "show_dialog d g = g\<lparr>dialogs := dialogs g @ [d]\<rparr>"

definition sleep :: "real \<Rightarrow> runtime \<Rightarrow> runtime" where
  "sleep secs rt = rt\<lparr>io_log := io_log rt @ [Sleep secs]\<rparr>"

text \<open>The prefix \<^verbatim>\<open>[<index>] \<close> of a status line.\<close>

definition at_index :: "world \<Rightarrow> int \<Rightarrow> string" where
  "at_index wd index = ''['' @ repr wd (PInt index) @ ''] ''"

text \<open>\<^verbatim>\<open>str.lower\<close>, on the ASCII letters.\<close>

definition lower_char :: "char \<Rightarrow> char" where
  "lower_char c =
    (let n = (of_char c :: nat) in if 65 \<le> n \<and> n \<le> 90 then char_of (n + 32) else c)"

definition lower :: "string \<Rightarrow> string" where
  "lower s = map lower_char s"

text \<open>The cast of basic literals that \<^verbatim>\<open>SET_VAR\<close> applies to a string value.\<close>

definition cast_literal :: "world \<Rightarrow> pyval \<Rightarrow> pyval" where
  "cast_literal wd v =
    (case v of
       PStr s \<Rightarrow>
         (let lv = lower s
          in if lv \<in> {''true'', ''false''} then PBool (lv = ''true'')
             else if CHR ''.'' \<in> set s
                  then (case float_of_str wd s of None \<Rightarrow> PStr s | Some r \<Rightarrow> PFloat r)
                  else (case int_of_str wd s of None \<Rightarrow> PStr s | Some i \<Rightarrow> PInt i))
     | _ \<Rightarrow> v)"

section \<open>The handlers of \<^verbatim>\<open>_execute_action\<close>\<close>

text \<open>
  One function for each branch of the \<^verbatim>\<open>if\<close>/\<^verbatim>\<open>elif\<close> chain inside the \<^verbatim>\<open>try\<close> block. A
  handler returns \<open>Inl e\<close> when the branch raises \<open>e\<close> (with the state as it is at that
  moment), \<open>Inr (Some t)\<close> when it executes \<^verbatim>\<open>return target\<close>, and \<open>Inr None\<close> when it falls
  through to the final \<^verbatim>\<open>return None\<close>. The parameters are read and converted in the
  order of the source, so the first conversion that fails is the one that raises.
\<close>

definition exec_WAIT :: "world \<Rightarrow> int \<Rightarrow> pyval \<Rightarrow> bot_gui \<Rightarrow> (exn + int option) \<times> bot_gui" where
  "exec_WAIT wd index p g =
    (case bindE (py_get p ''seconds'' (PFloat 0.5)) (py_float wd) of
       Inl e \<Rightarrow> (Inl e, g)
     | Inr secs \<Rightarrow>
         (Inr None,
          on_runtime (sleep (max 0 secs))
            (set_status (at_index wd index @ ''WAIT '' @ repr wd (PFloat secs) @ ''s'') g)))"

definition exec_SCREENSHOT :: "world \<Rightarrow> int \<Rightarrow> bot_gui \<Rightarrow> (exn + int option) \<times> bot_gui" where
  "exec_SCREENSHOT wd index g =
    (Inr None,
     on_runtime (\<lambda>rt. snd (take_screenshot wd rt))
       (set_status (at_index wd index @ ''SCREENSHOT'') g))"

definition exec_LOAD_TEMPLATE ::
  "world \<Rightarrow> int \<Rightarrow> bool \<Rightarrow> pyval \<Rightarrow> bot_gui \<Rightarrow> (exn + int option) \<times> bot_gui" where
  "exec_LOAD_TEMPLATE wd index test_mode p g =
    (case bindE (py_get p ''name'' (PStr ''template'')) (\<lambda>n.
          bindE (py_get p ''path'' (PStr [])) (\<lambda>pa.
          Inr (py_str wd n, py_str wd pa))) of
       Inl e \<Rightarrow> (Inl e, g)
     | Inr (name, path) \<Rightarrow>
         (let g1 = set_status (at_index wd index @ ''LOAD_TEMPLATE '' @ name) g;
              (ok, rt') = load_template wd name path (runtime g1);
              g2 = g1\<lparr>runtime := rt'\<rparr>;
              g3 = (if ok \<and> test_mode
                    then g2\<lparr>templates_list := templates_list g2 @ [name @ '' -> '' @ path]\<rparr>
                    else g2);
              g4 = (if \<not> ok then show_dialog (LoadTemplateFailed name path) g3 else g3)
          in (Inr None, g4)))"

definition exec_FIND_TEMPLATE ::
  "world \<Rightarrow> int \<Rightarrow> pyval \<Rightarrow> bot_gui \<Rightarrow> (exn + int option) \<times> bot_gui" where
  "exec_FIND_TEMPLATE wd index p g =
    (case bindE (py_get p ''name'' (PStr ''template'')) (\<lambda>n.
          bindE (bindE (py_get p ''threshold'' (PFloat 0.85)) (py_float wd)) (\<lambda>thr.
          Inr (py_str wd n, thr))) of
       Inl e \<Rightarrow> (Inl e, g)
     | Inr (name, threshold) \<Rightarrow>
         (let g1 = set_status (at_index wd index @ ''FIND_TEMPLATE '' @ name @ '' thr=''
                                 @ repr wd (PFloat threshold)) g
          in case find_template wd name threshold TM_CCOEFF_NORMED (runtime g1) of
               (Inl e, rt') \<Rightarrow> (Inl e, g1\<lparr>runtime := rt'\<rparr>)
             | (Inr (Some m), rt') \<Rightarrow>
                 (Inr None,
                  g1\<lparr>runtime :=
                       set_var ''last_match_xy'' (PTuple [PInt (m_x m), PInt (m_y m)])
                         (set_var ''last_match_name'' (PStr (m_name m))
                           (set_var ''last_match_score'' (PFloat (m_score m)) rt'))\<rparr>)
             | (Inr None, rt') \<Rightarrow>
                 (Inr None,
                  g1\<lparr>runtime :=
                       set_var ''last_match_xy'' PNone
                         (set_var ''last_match_name'' PNone
                           (set_var ''last_match_score'' PNone rt'))\<rparr>)))"

definition exec_CLICK_MATCH ::
  "world \<Rightarrow> int \<Rightarrow> pyval \<Rightarrow> bot_gui \<Rightarrow> (exn + int option) \<times> bot_gui" where
  "exec_CLICK_MATCH wd index p g =
    (case bindE (py_get p ''button'' (PStr ''left'')) (\<lambda>bt.
          bindE (bindE (py_get p ''clicks'' (PInt 1)) (py_int wd)) (\<lambda>clicks.
          bindE (bindE (py_get p ''interval'' (PFloat 0.05)) (py_float wd)) (\<lambda>interval.
          bindE (py_get p ''center'' (PBool True)) (\<lambda>ce.
          bindE (bindE (py_get p ''offset_x'' (PInt 0)) (py_int wd)) (\<lambda>ox.
          bindE (bindE (py_get p ''offset_y'' (PInt 0)) (py_int wd)) (\<lambda>oy.
          Inr (py_str wd bt, clicks, interval, py_bool ce, ox, oy))))))) of
       Inl e \<Rightarrow> (Inl e, g)
     | Inr (button, clicks, interval, center, ox, oy) \<Rightarrow>
         (let g1 = set_status (at_index wd index @ ''CLICK_MATCH '' @ button @ '' x''
                                 @ repr wd (PInt clicks)) g;
              (ok, rt') = click_match button clicks interval center (ox, oy) (runtime g1);
              g2 = g1\<lparr>runtime := rt'\<rparr>
          in (Inr None, if \<not> ok then show_dialog NoLastMatch g2 else g2)))"

definition exec_CLICK_AT ::
  "world \<Rightarrow> int \<Rightarrow> pyval \<Rightarrow> bot_gui \<Rightarrow> (exn + int option) \<times> bot_gui" where
  "exec_CLICK_AT wd index p g =
    (case bindE (bindE (py_get p ''x'' (PInt 0)) (py_int wd)) (\<lambda>x.
          bindE (bindE (py_get p ''y'' (PInt 0)) (py_int wd)) (\<lambda>y.
          bindE (py_get p ''button'' (PStr ''left'')) (\<lambda>bt.
          bindE (bindE (py_get p ''clicks'' (PInt 1)) (py_int wd)) (\<lambda>clicks.
          bindE (bindE (py_get p ''interval'' (PFloat 0.05)) (py_float wd)) (\<lambda>interval.
          Inr (x, y, py_str wd bt, clicks, interval)))))) of
       Inl e \<Rightarrow> (Inl e, g)
     | Inr (x, y, button, clicks, interval) \<Rightarrow>
         (Inr None,
          on_runtime (click_at x y button clicks interval)
            (set_status (at_index wd index @ ''CLICK_AT '' @ repr wd (PInt x) @ '',''
                           @ repr wd (PInt y)) g)))"

definition exec_MOVE_MOUSE ::
  "world \<Rightarrow> int \<Rightarrow> pyval \<Rightarrow> bot_gui \<Rightarrow> (exn + int option) \<times> bot_gui" where
  "exec_MOVE_MOUSE wd index p g =
    (case bindE (bindE (py_get p ''x'' (PInt 0)) (py_int wd)) (\<lambda>x.
          bindE (bindE (py_get p ''y'' (PInt 0)) (py_int wd)) (\<lambda>y.
          bindE (bindE (py_get p ''duration'' (PFloat 0.2)) (py_float wd)) (\<lambda>duration.
          Inr (x, y, duration)))) of
       Inl e \<Rightarrow> (Inl e, g)
     | Inr (x, y, duration) \<Rightarrow>
         (Inr None,
          on_runtime (move_mouse x y duration)
            (set_status (at_index wd index @ ''MOVE_MOUSE '' @ repr wd (PInt x) @ '',''
                           @ repr wd (PInt y)) g)))"

definition exec_CHECK_PIXEL ::
  "world \<Rightarrow> int \<Rightarrow> pyval \<Rightarrow> bot_gui \<Rightarrow> (exn + int option) \<times> bot_gui" where
  "exec_CHECK_PIXEL wd index p g =
    (case bindE (bindE (py_get p ''x'' (PInt 0)) (py_int wd)) (\<lambda>x.
          bindE (bindE (py_get p ''y'' (PInt 0)) (py_int wd)) (\<lambda>y.
          bindE (bindE (py_get p ''r'' (PInt 255)) (py_int wd)) (\<lambda>r0.
          bindE (bindE (py_get p ''g'' (PInt 255)) (py_int wd)) (\<lambda>g0.
          bindE (bindE (py_get p ''b'' (PInt 255)) (py_int wd)) (\<lambda>b0.
          bindE (bindE (py_get p ''tolerance'' (PInt 10)) (py_int wd)) (\<lambda>tol.
          bindE (py_get p ''set_var'' (PStr ''pixel_ok'')) (\<lambda>vn.
          Inr (x, y, r0, g0, b0, tol, py_str wd vn)))))))) of
       Inl e \<Rightarrow> (Inl e, g)
     | Inr (x, y, r0, g0, b0, tol, varname) \<Rightarrow>
         (let g1 = set_status (at_index wd index @ ''CHECK_PIXEL '' @ repr wd (PInt x) @ '',''
                                 @ repr wd (PInt y)) g;
              (ok, rt') = check_pixel wd x y r0 g0 b0 tol (runtime g1)
          in (Inr None, g1\<lparr>runtime := set_var varname (PBool ok) rt'\<rparr>)))"

definition exec_SET_VAR ::
  "world \<Rightarrow> int \<Rightarrow> pyval \<Rightarrow> bot_gui \<Rightarrow> (exn + int option) \<times> bot_gui" where
  "exec_SET_VAR wd index p g =
    (case bindE (py_get p ''name'' (PStr ''flag'')) (\<lambda>n.
          bindE (py_get p ''value'' (PStr [])) (\<lambda>v.
          Inr (py_str wd n, cast_literal wd v))) of
       Inl e \<Rightarrow> (Inl e, g)
     | Inr (name, v) \<Rightarrow>
         (Inr None,
          on_runtime (set_var name v)
            (set_status (at_index wd index @ ''SET_VAR '' @ name @ ''='' @ py_str wd v) g)))"

definition exec_IF_GOTO ::
  "world \<Rightarrow> int \<Rightarrow> pyval \<Rightarrow> bot_gui \<Rightarrow> (exn + int option) \<times> bot_gui" where
  "exec_IF_GOTO wd index p g =
    (case bindE (py_get p ''expr'' (PStr ''False'')) (\<lambda>ex.
          bindE (bindE (py_get p ''index'' (PInt 0)) (py_int wd)) (\<lambda>target.
          Inr (py_str wd ex, target))) of
       Inl e \<Rightarrow> (Inl e, g)
     | Inr (expr, target) \<Rightarrow>
         (let g1 = set_status (at_index wd index @ ''IF_GOTO -> '' @ repr wd (PInt target)) g;
              result = (case eval_bool wd expr (vars (runtime g1)) (last_match (runtime g1)) of
                          None \<Rightarrow> False
                        | Some b \<Rightarrow> b)
          in if result then (Inr (Some target), g1) else (Inr None, g1)))"

definition exec_PRESS_KEY ::
  "world \<Rightarrow> int \<Rightarrow> pyval \<Rightarrow> bot_gui \<Rightarrow> (exn + int option) \<times> bot_gui" where
  "exec_PRESS_KEY wd index p g =
    (case bindE (py_get p ''key'' (PStr ''enter'')) (\<lambda>k. Inr (py_str wd k)) of
       Inl e \<Rightarrow> (Inl e, g)
     | Inr key \<Rightarrow>
         (Inr None,
          on_runtime (press_key key) (set_status (at_index wd index @ ''PRESS_KEY '' @ key) g)))"

definition exec_TYPE_TEXT ::
  "world \<Rightarrow> int \<Rightarrow> pyval \<Rightarrow> bot_gui \<Rightarrow> (exn + int option) \<times> bot_gui" where
  "exec_TYPE_TEXT wd index p g =
    (case bindE (py_get p ''text'' (PStr [])) (\<lambda>t.
          bindE (bindE (py_get p ''interval'' (PFloat 0.02)) (py_float wd)) (\<lambda>interval.
          Inr (py_str wd t, interval))) of
       Inl e \<Rightarrow> (Inl e, g)
     | Inr (txt, interval) \<Rightarrow>
         (Inr None,
          on_runtime (type_text txt interval)
            (set_status (at_index wd index @ ''TYPE_TEXT '' @ [CHR 0x27] @ txt @ [CHR 0x27]) g)))"

text \<open>The \<^verbatim>\<open>if\<close>/\<^verbatim>\<open>elif\<close> chain over \<^verbatim>\<open>act.type\<close>, the body of the \<^verbatim>\<open>try\<close> block.\<close>

definition dispatch ::
  "world \<Rightarrow> int \<Rightarrow> bool \<Rightarrow> BotAction \<Rightarrow> bot_gui \<Rightarrow> (exn + int option) \<times> bot_gui" where
  "dispatch wd index test_mode act g =
    (let p = params act
     in if type act = PStr ''WAIT'' then exec_WAIT wd index p g
        else if type act = PStr ''SCREENSHOT'' then exec_SCREENSHOT wd index g
        else if type act = PStr ''LOAD_TEMPLATE'' then exec_LOAD_TEMPLATE wd index test_mode p g
        else if type act = PStr ''FIND_TEMPLATE'' then exec_FIND_TEMPLATE wd index p g
        else if type act = PStr ''CLICK_MATCH'' then exec_CLICK_MATCH wd index p g
        else if type act = PStr ''CLICK_AT'' then exec_CLICK_AT wd index p g
        else if type act = PStr ''MOVE_MOUSE'' then exec_MOVE_MOUSE wd index p g
        else if type act = PStr ''CHECK_PIXEL'' then exec_CHECK_PIXEL wd index p g
        else if type act = PStr ''SET_VAR'' then exec_SET_VAR wd index p g
        else if type act = PStr ''IF_GOTO'' then exec_IF_GOTO wd index p g
        else if type act = PStr ''PRESS_KEY'' then exec_PRESS_KEY wd index p g
        else if type act = PStr ''TYPE_TEXT'' then exec_TYPE_TEXT wd index p g
        else (Inr None, show_dialog (UnknownAction (type act)) g))"

text \<open>
  \<^verbatim>\<open>_execute_action\<close>: the bounds check, the dispatch, and the \<^verbatim>\<open>except Exception\<close> clause,
  which reports the exception and lets the function return \<^verbatim>\<open>None\<close>.
\<close>

definition execute_action :: "world \<Rightarrow> int \<Rightarrow> bool \<Rightarrow> bot_gui \<Rightarrow> int option \<times> bot_gui" where
  "execute_action wd index test_mode g =
    (if index < 0 \<or> index \<ge> int (length (actions g)) then (None, g)
     else (let act = actions g ! nat index
           in case dispatch wd index test_mode act g of
                (Inl e, g') \<Rightarrow> (None, show_dialog (ActionError index (type act) e) g')
              | (Inr j, g') \<Rightarrow> (j, g')))"

section \<open>The interpreter loop\<close>

text \<open>
  \<^verbatim>\<open>_runner_loop\<close> runs on its own thread while the window's thread may call
  \<^verbatim>\<open>stop_script\<close>. The only thing the two threads share in a run is the stop flag, so the
  other thread is a schedule \<open>ctl\<close>: passes of the loop are counted from 0, and \<open>ctl k\<close>
  holds when a \<^verbatim>\<open>request_stop\<close> lands before the poll of \<^verbatim>\<open>should_stop\<close> in pass \<open>k\<close> and
  after the poll of the pass before. A request made while an action is in flight is
  therefore seen at the next poll, as in the source.

  The loop need not terminate (an \<^verbatim>\<open>IF_GOTO\<close> can jump backwards for ever), so it takes
  fuel: one unit for each pass, \<open>None\<close> when the fuel is used up before the loop has left.
  The result reports how the loop left (\<open>Stopped\<close> for the \<^verbatim>\<open>return\<close> after
  \<^verbatim>\<open>set_status("Stopped")\<close>, \<open>Done\<close> for the exit of the \<^verbatim>\<open>while\<close>), the final value of
  \<^verbatim>\<open>i\<close>, the final state, and the indices that were passed to \<^verbatim>\<open>_execute_action\<close>, in order.
\<close>

datatype outcome = Stopped | Done

record run_result =
  outcome :: outcome
  pc :: int
  final :: bot_gui
  executed :: "int list"

fun runner_loop_from ::
  "world \<Rightarrow> (nat \<Rightarrow> bool) \<Rightarrow> nat \<Rightarrow> nat \<Rightarrow> int \<Rightarrow> int list \<Rightarrow> bot_gui \<Rightarrow> run_result option" where
  "runner_loop_from wd ctl 0 k i tr g = None"
| "runner_loop_from wd ctl (Suc fuel) k i tr g =
    (if i < int (length (actions g)) then
       (let g1 = (if ctl k then on_runtime request_stop g else g)
        in if should_stop (runtime g1)
           then Some \<lparr>outcome = Stopped, pc = i, final = set_status ''Stopped'' g1, executed = tr\<rparr>
           else (let (jumped, g2) = execute_action wd i False g1;
                     i' = (case jumped of
                             Some t \<Rightarrow> max 0 (min (int (length (actions g2)) - 1) t)
                           | None \<Rightarrow> i + 1)
                 in runner_loop_from wd ctl fuel (Suc k) i' (tr @ [i]) g2))
     else Some \<lparr>outcome = Done, pc = i, final = set_status ''Done'' g, executed = tr\<rparr>)"

definition runner_loop :: "world \<Rightarrow> (nat \<Rightarrow> bool) \<Rightarrow> nat \<Rightarrow> bot_gui \<Rightarrow> run_result option" where
  "runner_loop wd ctl fuel g = runner_loop_from wd ctl fuel 0 0 [] (set_status ''Running'' g)"

text \<open>\<^verbatim>\<open>run_script\<close>, once it has found no run alive: clear the flag, then run the loop.\<close>

definition run_script :: "world \<Rightarrow> (nat \<Rightarrow> bool) \<Rightarrow> nat \<Rightarrow> bot_gui \<Rightarrow> run_result option" where
  "run_script wd ctl fuel g = runner_loop wd ctl fuel (on_runtime clear_stop g)"

section \<open>Auxiliary definitions for the proofs and the examples\<close>

text \<open>
  What no handler touches: the script and the stop flag. \<open>same_frame g g'\<close> says that \<open>g'\<close>
  has the script and the flag of \<open>g\<close>.
\<close>

definition same_frame :: "bot_gui \<Rightarrow> bot_gui \<Rightarrow> bool" where
  "same_frame g g' \<longleftrightarrow>
     actions g' = actions g \<and> stop_requested (runtime g') = stop_requested (runtime g)"

text \<open>\<^verbatim>\<open>BotRuntime.__init__\<close>, and a window that holds a given script and a fresh runtime.\<close>

definition init_runtime :: runtime where
  "init_runtime =
    \<lparr>vars = Map.empty, templates = Map.empty, last_screenshot_bgr = None, last_match = None,
     stop_requested = False, shots = 0, io_log = []\<rparr>"

definition init_gui :: "BotAction list \<Rightarrow> bot_gui" where
  "init_gui acts =
    \<lparr>actions = acts, runtime = init_runtime, status = ''Ready'', dialogs = [],
     templates_list = []\<rparr>"

text \<open>
  A small world for the concrete examples: a screen of 3 by 2 pixels, every pixel blue 10,
  green 20, red 30; one image file \<^verbatim>\<open>t.png\<close>; a matcher with fixed answers (an
  unnormalised correlation for \<^verbatim>\<open>TM_CCOEFF\<close>, as OpenCV gives for that method); and an
  evaluator that knows three expressions. Its float subtraction is the exact one, which is
  what double arithmetic gives on the values the matcher hands out here (\<open>1 - 1/4\<close> is
  \<open>3/4\<close> without rounding). The examples give numbers as numbers, so the two string parsers
  are never consulted, and no example reads a formatted status line.
\<close>

definition demo_image :: image where
  "demo_image = \<lparr>img_h = 2, img_w = 3, img_px = (\<lambda>y x. (10, 20, 30))\<rparr>"

definition demo_template :: image where
  "demo_template = \<lparr>img_h = 1, img_w = 2, img_px = (\<lambda>y x. (10, 20, 30))\<rparr>"

definition demo_world :: world where
  "demo_world =
    \<lparr>screenshot = (\<lambda>k. demo_image),
     isfile = (\<lambda>p. p = ''t.png''),
     imread = (\<lambda>p. if p = ''t.png'' then Some demo_template else None),
     matchTemplate = (\<lambda>src tmpl method.
        if method = TM_CCOEFF then Some (- 1000, 250000, (0, 0), (1, 1))
        else if method = TM_SQDIFF_NORMED then Some (1 / 4, 3 / 4, (1, 0), (0, 1))
        else Some (- 1 / 10, 9 / 10, (0, 1), (1, 0))),
     eval_bool = (\<lambda>expr vs lm.
        if expr = ''True'' then Some True
        else if expr = ''False'' then Some False
        else if expr = ''last_match is None'' then Some (lm = None)
        else None),
     float_sub = (\<lambda>a b. a - b),
     int_of_str = (\<lambda>s. None),
     float_of_str = (\<lambda>s. None),
     repr = (\<lambda>v. ''?'')\<rparr>"

text \<open>A runtime that holds a frame and the result of an earlier successful find.\<close>

definition old_match :: match_result where
  "old_match = \<lparr>m_name = ''old'', m_x = 5, m_y = 6, m_w = 10, m_h = 8, m_score = 9 / 10\<rparr>"

definition stale_runtime :: runtime where
  "stale_runtime =
    init_runtime\<lparr>last_screenshot_bgr := Some demo_image, last_match := Some old_match\<rparr>"

definition loaded_runtime :: runtime where
  "loaded_runtime = stale_runtime\<lparr>templates := [''t'' \<mapsto> demo_template]\<rparr>"

text \<open>
  The same world with a matcher that reports the distance \<open>2^-60\<close>. In double arithmetic
  \<^verbatim>\<open>1.0 - 2.0**-60\<close> rounds to \<^verbatim>\<open>1.0\<close>, and this world's subtraction says so.
\<close>

definition rounding_world :: world where
  "rounding_world =
    demo_world\<lparr>matchTemplate := (\<lambda>src tmpl method. Some (1 / 2 ^ 60, 1, (0, 0), (1, 1))),
               float_sub := (\<lambda>a b. if a = 1 \<and> b = 1 / 2 ^ 60 then 1 else a - b)\<rparr>"

text \<open>The match that the demo matcher yields for \<^verbatim>\<open>TM_CCOEFF\<close>.\<close>

definition big_match :: match_result where
  "big_match = \<lparr>m_name = ''t'', m_x = 1, m_y = 1, m_w = 2, m_h = 1, m_score = 250000\<rparr>"

text \<open>
  Two scripts. The first jumps from action 0 past the end (target 99) when no match is
  stored, which is so in a fresh runtime. The second presses a key and jumps back (target
  \<open>-7\<close>) for ever.
\<close>

definition jump_script :: "BotAction list" where
  "jump_script =
    [\<lparr>type = PStr ''IF_GOTO'',
      params = PDict [(''expr'', PStr ''last_match is None''), (''index'', PInt 99)]\<rparr>,
     \<lparr>type = PStr ''WAIT'', params = PDict [(''seconds'', PInt 0)]\<rparr>,
     \<lparr>type = PStr ''PRESS_KEY'', params = PDict [(''key'', PStr ''a'')]\<rparr>]"

definition forever_script :: "BotAction list" where
  "forever_script =
    [\<lparr>type = PStr ''PRESS_KEY'', params = PDict [(''key'', PStr ''a'')]\<rparr>,
     \<lparr>type = PStr ''IF_GOTO'', params = PDict [(''expr'', PStr ''True''), (''index'', PInt (- 7))]\<rparr>]"

text \<open>
  The value that one pass of \<^verbatim>\<open>_runner_loop\<close> gives to \<^verbatim>\<open>i\<close>, for \<open>n = len(self.actions)\<close>:
  \<^verbatim>\<open>max(0, min(n - 1, jumped))\<close> after a jump, \<^verbatim>\<open>i + 1\<close> otherwise.
\<close>

definition next_index :: "int option \<Rightarrow> int \<Rightarrow> int \<Rightarrow> int" where
  "next_index jumped n i = (case jumped of Some t \<Rightarrow> max 0 (min (n - 1) t) | None \<Rightarrow> i + 1)"

text \<open>A handler's result that is not a jump: an exception, or the fall through.\<close>

definition no_jump :: "(exn + int option) \<times> bot_gui \<Rightarrow> bool" where
  "no_jump r \<longleftrightarrow> (case fst r of Inl e \<Rightarrow> True | Inr j \<Rightarrow> j = None)"

section \<open>What the handlers leave alone\<close>

lemma gui_ops [simp]:
  "actions (set_status s g) = actions g"
  "runtime (set_status s g) = runtime g"
  "status (set_status s g) = s"
  "actions (on_runtime f g) = actions g"
  "runtime (on_runtime f g) = f (runtime g)"
  "status (on_runtime f g) = status g"
  "actions (show_dialog d g) = actions g"
  "runtime (show_dialog d g) = runtime g"
  "status (show_dialog d g) = status g"
  by (simp_all add: set_status_def on_runtime_def show_dialog_def)

lemma stop_requested_ops [simp]:
  "stop_requested (set_var n v rt) = stop_requested rt"
  "stop_requested (sleep secs rt) = stop_requested rt"
  "stop_requested (click_at x y bt c iv rt) = stop_requested rt"
  "stop_requested (move_mouse x y du rt) = stop_requested rt"
  "stop_requested (press_key ky rt) = stop_requested rt"
  "stop_requested (type_text tx iv rt) = stop_requested rt"
  "stop_requested (snd (take_screenshot wd rt)) = stop_requested rt"
  "stop_requested (snd (load_template wd nm pa rt)) = stop_requested rt"
  "stop_requested (snd (click_match bt c iv ce off rt)) = stop_requested rt"
  by (simp_all add: set_var_def sleep_def click_at_def move_mouse_def press_key_def
        type_text_def take_screenshot_def load_template_def click_match_def Let_def
      split: option.splits)

lemma stop_requested_ensure [simp]:
  "stop_requested (snd (ensure_screenshot wd rt)) = stop_requested rt"
  by (simp add: ensure_screenshot_def split: option.splits)

lemma stop_requested_find [simp]:
  "stop_requested (snd (find_template wd nm thr me rt)) = stop_requested rt"
proof -
  obtain src rt1 where e: "ensure_screenshot wd rt = (src, rt1)"
    by (cases "ensure_screenshot wd rt")
  then have "stop_requested rt1 = stop_requested rt"
    using stop_requested_ensure [of wd rt] by simp
  then show ?thesis
    by (simp add: find_template_def e Let_def split: option.splits prod.splits)
qed

lemma stop_requested_check [simp]:
  "stop_requested (snd (check_pixel wd x y r g b tol rt)) = stop_requested rt"
proof -
  obtain shot rt1 where e: "ensure_screenshot wd rt = (shot, rt1)"
    by (cases "ensure_screenshot wd rt")
  then have "stop_requested rt1 = stop_requested rt"
    using stop_requested_ensure [of wd rt] by simp
  then show ?thesis
    by (simp add: check_pixel_def e Let_def split: prod.splits)
qed

lemma exec_WAIT_frame: "same_frame g (snd (exec_WAIT wd index p g))"
  by (simp add: exec_WAIT_def same_frame_def split: sum.splits)

lemma exec_SCREENSHOT_frame: "same_frame g (snd (exec_SCREENSHOT wd index g))"
  by (simp add: exec_SCREENSHOT_def same_frame_def)

lemma exec_LOAD_TEMPLATE_frame: "same_frame g (snd (exec_LOAD_TEMPLATE wd index tm p g))"
proof (cases "bindE (py_get p ''name'' (PStr ''template'')) (\<lambda>n.
          bindE (py_get p ''path'' (PStr [])) (\<lambda>pa.
          Inr (py_str wd n, py_str wd pa)))")
  case (Inl e)
  then show ?thesis by (simp add: exec_LOAD_TEMPLATE_def same_frame_def)
next
  case (Inr np)
  obtain name path where np: "np = (name, path)" by (cases np)
  let ?g1 = "set_status (at_index wd index @ ''LOAD_TEMPLATE '' @ name) g"
  obtain ok rt' where l: "load_template wd name path (runtime ?g1) = (ok, rt')"
    by (cases "load_template wd name path (runtime ?g1)")
  have "rt' = snd (load_template wd name path (runtime g))"
    using l by simp
  then have "stop_requested rt' = stop_requested (runtime g)"
    by simp
  then show ?thesis
    using Inr np l by (simp add: exec_LOAD_TEMPLATE_def same_frame_def Let_def)
qed

lemma exec_FIND_TEMPLATE_frame: "same_frame g (snd (exec_FIND_TEMPLATE wd index p g))"
proof (cases "bindE (py_get p ''name'' (PStr ''template'')) (\<lambda>n.
          bindE (bindE (py_get p ''threshold'' (PFloat 0.85)) (py_float wd)) (\<lambda>thr.
          Inr (py_str wd n, thr)))")
  case (Inl e)
  then show ?thesis by (simp add: exec_FIND_TEMPLATE_def same_frame_def)
next
  case (Inr nt)
  obtain name thr where nt: "nt = (name, thr)" by (cases nt)
  let ?g1 = "set_status (at_index wd index @ ''FIND_TEMPLATE '' @ name @ '' thr=''
                                 @ repr wd (PFloat thr)) g"
  obtain res rt' where f: "find_template wd name thr TM_CCOEFF_NORMED (runtime ?g1) = (res, rt')"
    by (cases "find_template wd name thr TM_CCOEFF_NORMED (runtime ?g1)")
  have "rt' = snd (find_template wd name thr TM_CCOEFF_NORMED (runtime g))"
    using f by simp
  then have "stop_requested rt' = stop_requested (runtime g)"
    by simp
  then show ?thesis
    using Inr nt f
    by (simp add: exec_FIND_TEMPLATE_def same_frame_def Let_def split: sum.splits option.splits)
qed


lemma exec_CLICK_MATCH_frame: "same_frame g (snd (exec_CLICK_MATCH wd index p g))"
proof (cases "bindE (py_get p ''button'' (PStr ''left'')) (\<lambda>bt.
          bindE (bindE (py_get p ''clicks'' (PInt 1)) (py_int wd)) (\<lambda>clicks.
          bindE (bindE (py_get p ''interval'' (PFloat 0.05)) (py_float wd)) (\<lambda>interval.
          bindE (py_get p ''center'' (PBool True)) (\<lambda>ce.
          bindE (bindE (py_get p ''offset_x'' (PInt 0)) (py_int wd)) (\<lambda>ox.
          bindE (bindE (py_get p ''offset_y'' (PInt 0)) (py_int wd)) (\<lambda>oy.
          Inr (py_str wd bt, clicks, interval, py_bool ce, ox, oy)))))))")
  case (Inl e)
  then show ?thesis by (simp add: exec_CLICK_MATCH_def same_frame_def)
next
  case (Inr args)
  obtain button clicks interval center ox oy
    where args: "args = (button, clicks, interval, center, ox, oy)"
    by (cases args)
  obtain ok rt' where c: "click_match button clicks interval center (ox, oy) (runtime g) = (ok, rt')"
    by (cases "click_match button clicks interval center (ox, oy) (runtime g)")
  then have "rt' = snd (click_match button clicks interval center (ox, oy) (runtime g))"
    by simp
  then have "stop_requested rt' = stop_requested (runtime g)"
    by simp
  then show ?thesis
    using Inr args c by (simp add: exec_CLICK_MATCH_def same_frame_def Let_def)
qed

lemma exec_CLICK_AT_frame: "same_frame g (snd (exec_CLICK_AT wd index p g))"
  by (simp add: exec_CLICK_AT_def same_frame_def split: sum.splits prod.splits)

lemma exec_MOVE_MOUSE_frame: "same_frame g (snd (exec_MOVE_MOUSE wd index p g))"
  by (simp add: exec_MOVE_MOUSE_def same_frame_def split: sum.splits prod.splits)

lemma exec_CHECK_PIXEL_frame: "same_frame g (snd (exec_CHECK_PIXEL wd index p g))"
proof (cases "bindE (bindE (py_get p ''x'' (PInt 0)) (py_int wd)) (\<lambda>x.
          bindE (bindE (py_get p ''y'' (PInt 0)) (py_int wd)) (\<lambda>y.
          bindE (bindE (py_get p ''r'' (PInt 255)) (py_int wd)) (\<lambda>r0.
          bindE (bindE (py_get p ''g'' (PInt 255)) (py_int wd)) (\<lambda>g0.
          bindE (bindE (py_get p ''b'' (PInt 255)) (py_int wd)) (\<lambda>b0.
          bindE (bindE (py_get p ''tolerance'' (PInt 10)) (py_int wd)) (\<lambda>tol.
          bindE (py_get p ''set_var'' (PStr ''pixel_ok'')) (\<lambda>vn.
          Inr (x, y, r0, g0, b0, tol, py_str wd vn))))))))")
  case (Inl e)
  then show ?thesis by (simp add: exec_CHECK_PIXEL_def same_frame_def)
next
  case (Inr args)
  obtain x y r0 g0 b0 tol varname where args: "args = (x, y, r0, g0, b0, tol, varname)"
    by (cases args)
  obtain ok rt' where c: "check_pixel wd x y r0 g0 b0 tol (runtime g) = (ok, rt')"
    by (cases "check_pixel wd x y r0 g0 b0 tol (runtime g)")
  then have "rt' = snd (check_pixel wd x y r0 g0 b0 tol (runtime g))"
    by simp
  then have "stop_requested rt' = stop_requested (runtime g)"
    by simp
  then show ?thesis
    using Inr args c by (simp add: exec_CHECK_PIXEL_def same_frame_def Let_def)
qed

lemma exec_SET_VAR_frame: "same_frame g (snd (exec_SET_VAR wd index p g))"
  by (simp add: exec_SET_VAR_def same_frame_def split: sum.splits prod.splits)

lemma exec_IF_GOTO_frame: "same_frame g (snd (exec_IF_GOTO wd index p g))"
  by (simp add: exec_IF_GOTO_def same_frame_def Let_def split: sum.splits prod.splits)

lemma exec_PRESS_KEY_frame: "same_frame g (snd (exec_PRESS_KEY wd index p g))"
  by (simp add: exec_PRESS_KEY_def same_frame_def split: sum.splits)

lemma exec_TYPE_TEXT_frame: "same_frame g (snd (exec_TYPE_TEXT wd index p g))"
  by (simp add: exec_TYPE_TEXT_def same_frame_def split: sum.splits prod.splits)

lemma dispatch_frame: "same_frame g (snd (dispatch wd index tm act g))"
  unfolding dispatch_def Let_def
  by (simp add: exec_WAIT_frame exec_SCREENSHOT_frame exec_LOAD_TEMPLATE_frame
        exec_FIND_TEMPLATE_frame exec_CLICK_MATCH_frame exec_CLICK_AT_frame
        exec_MOVE_MOUSE_frame exec_CHECK_PIXEL_frame exec_SET_VAR_frame exec_IF_GOTO_frame
        exec_PRESS_KEY_frame exec_TYPE_TEXT_frame)
    (simp add: same_frame_def)

lemma execute_action_frame: "same_frame g (snd (execute_action wd index tm g))"
proof (cases "index < 0 \<or> index \<ge> int (length (actions g))")
  case True
  then show ?thesis by (simp add: execute_action_def same_frame_def)
next
  case False
  obtain r g' where d: "dispatch wd index tm (actions g ! nat index) g = (r, g')"
    by (cases "dispatch wd index tm (actions g ! nat index) g")
  then have "g' = snd (dispatch wd index tm (actions g ! nat index) g)"
    by simp
  then have "same_frame g g'"
    by (simp add: dispatch_frame)
  then show ?thesis
    using False d by (cases r) (simp_all add: execute_action_def same_frame_def Let_def)
qed

section \<open>Action model: serialisation\<close>

lemma from_dict_to_dict: "from_dict (to_dict a) = Inr a"
  by (simp add: from_dict_def to_dict_def)

text \<open>
  Claim C8. Serialising every action of a script with \<^verbatim>\<open>to_dict\<close> and reading the records
  back with \<^verbatim>\<open>from_dict\<close> gives the script again: the same actions in the same order, kind
  and params untouched (so every parameter keeps its value and its Python type). It holds
  for every script, whatever the kinds and the parameters are.
\<close>

theorem script_round_trip: "from_dicts (to_dicts acts) = Inr acts"
  by (induction acts) (simp_all add: to_dicts_def from_dict_to_dict)

text \<open>
  Claim C10. \<^verbatim>\<open>from_dict\<close> on a record without the key \<^verbatim>\<open>type\<close> raises \<^verbatim>\<open>KeyError\<close> and
  builds no action; on a record with \<^verbatim>\<open>type\<close> and without \<^verbatim>\<open>params\<close> it builds the action
  with the empty dict as params. Only params has a default.
\<close>

theorem from_dict_missing_fields:
  "(map_of d ''type'' = None \<longrightarrow> from_dict d = Inl (KeyError ''type'')) \<and>
   (map_of d ''type'' = Some t \<and> map_of d ''params'' = None \<longrightarrow>
      from_dict d = Inr \<lparr>type = t, params = PDict []\<rparr>)"
  by (simp add: from_dict_def)

text \<open>The two cases on concrete records.\<close>

theorem from_dict_missing_fields_witness:
  "from_dict [(''params'', PDict [(''seconds'', PInt 1)])] = Inl (KeyError ''type'') \<and>
   from_dict [(''type'', PStr ''WAIT'')] = Inr \<lparr>type = PStr ''WAIT'', params = PDict []\<rparr>"
  using from_dict_missing_fields [where d = "[(''params'', PDict [(''seconds'', PInt 1)])]"]
    from_dict_missing_fields [where d = "[(''type'', PStr ''WAIT'')]" and t = "PStr ''WAIT''"]
  by simp

section \<open>Runtime: finding a template\<close>

text \<open>
  For a name that is not registered, \<^verbatim>\<open>find_template\<close> returns \<^verbatim>\<open>None\<close> at once; the
  assignment \<^verbatim>\<open>self.last_match = None\<close> is further down, on the path of a score below the
  threshold, so the stored match stays what it was.
\<close>

lemma find_template_unregistered:
  assumes "templates rt name = None"
  shows "fst (find_template wd name threshold method rt) = Inr None"
    and "last_match (snd (find_template wd name threshold method rt)) = last_match rt"
proof -
  obtain src rt1 where e: "ensure_screenshot wd rt = (src, rt1)"
    by (cases "ensure_screenshot wd rt")
  then have t: "templates rt1 = templates rt" and l: "last_match rt1 = last_match rt"
    by (auto simp: ensure_screenshot_def take_screenshot_def Let_def split: option.splits)
  show "fst (find_template wd name threshold method rt) = Inr None"
    using assms e t by (simp add: find_template_def)
  show "last_match (snd (find_template wd name threshold method rt)) = last_match rt"
    using assms e t l by (simp add: find_template_def)
qed

text \<open>
  Claim C3. The claim is that a find on an unregistered name returns absent and clears the
  last match. The run below starts with a match stored by an earlier find and looks for a
  name that was never registered: the call returns \<^verbatim>\<open>None\<close>, and the runtime, the old match
  included, is exactly what it was. The code does not clear the match on this path.
\<close>

theorem find_template_unregistered_keeps_last_match:
  "templates stale_runtime ''missing'' = None \<and>
   find_template demo_world ''missing'' (85 / 100) TM_CCOEFF_NORMED stale_runtime
     = (Inr None, stale_runtime) \<and>
   last_match stale_runtime = Some old_match"
  by (simp add: find_template_def ensure_screenshot_def stale_runtime_def init_runtime_def)

lemma ensure_screenshot_keeps:
  "templates (snd (ensure_screenshot wd rt)) = templates rt"
  "last_match (snd (ensure_screenshot wd rt)) = last_match rt"
  by (simp_all add: ensure_screenshot_def take_screenshot_def Let_def split: option.splits)

text \<open>
  Claim C4, as stated: the score that \<^verbatim>\<open>find_template\<close> computes lies in \<open>[0,1]\<close>. It need
  not. The score is the matcher's \<^verbatim>\<open>max_val\<close> (or the float \<^verbatim>\<open>1.0 - min_val\<close>) as it comes; for the
  unnormalised method \<^verbatim>\<open>TM_CCOEFF\<close> and the default threshold the find below is accepted
  and stores a Match Result whose score is 250000.
\<close>

theorem find_template_score_outside_unit_interval:
  "fst (find_template demo_world ''t'' (85 / 100) TM_CCOEFF loaded_runtime) = Inr (Some big_match) \<and>
   last_match (snd (find_template demo_world ''t'' (85 / 100) TM_CCOEFF loaded_runtime))
     = Some big_match \<and>
   \<not> (0 \<le> m_score big_match \<and> m_score big_match \<le> 1)"
  by (simp add: find_template_def ensure_screenshot_def loaded_runtime_def stale_runtime_def
        init_runtime_def demo_world_def demo_template_def big_match_def Let_def
        TM_CCOEFF_def TM_SQDIFF_def TM_SQDIFF_NORMED_def)

text \<open>
  Claim C4, amended. For a registered template on which the matcher returns, the score is
  \<^verbatim>\<open>max_val\<close> as the matcher gives it, or for the two squared-difference methods the float
  \<^verbatim>\<open>1.0 - min_val\<close> as double arithmetic rounds it; it is not clamped, so apart from the
  squared-difference methods it lies in \<open>[0,1]\<close> when \<^verbatim>\<open>max_val\<close> does. The best location is
  accepted exactly when the score is at least the threshold; on acceptance the Match Result
  (name, location, the template's width and height, score) is stored and returned, on
  rejection the stored match is cleared and \<^verbatim>\<open>None\<close> returned.
\<close>

theorem find_template_threshold:
  assumes "templates rt name = Some tmpl"
    and "matchTemplate wd (fst (ensure_screenshot wd rt)) tmpl meth
           = Some (min_val, max_val, min_loc, max_loc)"
  shows "let sqdiff = (meth \<in> {TM_SQDIFF, TM_SQDIFF_NORMED});
             score = (if sqdiff then float_sub wd 1 min_val else max_val);
             loc = (if sqdiff then min_loc else max_loc);
             m = \<lparr>m_name = name, m_x = fst loc, m_y = snd loc,
                  m_w = int (img_w tmpl), m_h = int (img_h tmpl), m_score = score\<rparr>;
             res = find_template wd name threshold meth rt
         in (score \<ge> threshold \<longrightarrow> fst res = Inr (Some m) \<and> last_match (snd res) = Some m) \<and>
            (score < threshold \<longrightarrow> fst res = Inr None \<and> last_match (snd res) = None) \<and>
            (\<not> sqdiff \<and> 0 \<le> max_val \<and> max_val \<le> 1 \<longrightarrow> 0 \<le> score \<and> score \<le> 1)"
proof -
  obtain src rt1 where e: "ensure_screenshot wd rt = (src, rt1)"
    by (cases "ensure_screenshot wd rt")
  have t: "templates rt1 name = Some tmpl"
    using ensure_screenshot_keeps(1) [of wd rt] e assms(1) by simp
  have m: "matchTemplate wd src tmpl meth = Some (min_val, max_val, min_loc, max_loc)"
    using assms(2) e by simp
  show ?thesis
    by (simp add: find_template_def e t m Let_def)
qed

text \<open>
  \<^verbatim>\<open>TM_SQDIFF_NORMED\<close> with \<open>min_val = 1/4\<close> at (1, 0): the score is 3/4, accepted for the
  threshold 1/2 and rejected for 0.85. And with \<open>min_val = 2^-60\<close> and the threshold 1: the
  float \<^verbatim>\<open>1.0 - min_val\<close> is 1, so the match is accepted with the score 1, although the
  exact difference is below the threshold.
\<close>

theorem find_template_threshold_witness:
  "fst (find_template demo_world ''t'' (1 / 2) TM_SQDIFF_NORMED loaded_runtime)
     = Inr (Some \<lparr>m_name = ''t'', m_x = 1, m_y = 0, m_w = 2, m_h = 1, m_score = 3 / 4\<rparr>) \<and>
   last_match (snd (find_template demo_world ''t'' (1 / 2) TM_SQDIFF_NORMED loaded_runtime))
     = Some \<lparr>m_name = ''t'', m_x = 1, m_y = 0, m_w = 2, m_h = 1, m_score = 3 / 4\<rparr> \<and>
   fst (find_template demo_world ''t'' (85 / 100) TM_SQDIFF_NORMED loaded_runtime) = Inr None \<and>
   last_match (snd (find_template demo_world ''t'' (85 / 100) TM_SQDIFF_NORMED loaded_runtime))
     = None \<and>
   fst (find_template rounding_world ''t'' 1 TM_SQDIFF_NORMED loaded_runtime)
     = Inr (Some \<lparr>m_name = ''t'', m_x = 0, m_y = 0, m_w = 2, m_h = 1, m_score = 1\<rparr>) \<and>
   (1 :: real) - 1 / 2 ^ 60 < 1"
  using find_template_threshold [where wd = demo_world and rt = loaded_runtime and name = "''t''"
      and tmpl = demo_template and meth = TM_SQDIFF_NORMED and threshold = "1 / 2"
      and min_val = "1 / 4" and max_val = "3 / 4" and min_loc = "(1, 0)" and max_loc = "(0, 1)"]
    find_template_threshold [where wd = demo_world and rt = loaded_runtime and name = "''t''"
      and tmpl = demo_template and meth = TM_SQDIFF_NORMED and threshold = "85 / 100"
      and min_val = "1 / 4" and max_val = "3 / 4" and min_loc = "(1, 0)" and max_loc = "(0, 1)"]
    find_template_threshold [where wd = rounding_world and rt = loaded_runtime and name = "''t''"
      and tmpl = demo_template and meth = TM_SQDIFF_NORMED and threshold = 1
      and min_val = "1 / 2 ^ 60" and max_val = 1 and min_loc = "(0, 0)" and max_loc = "(1, 1)"]
  by (simp add: ensure_screenshot_def loaded_runtime_def stale_runtime_def init_runtime_def
        rounding_world_def demo_world_def demo_template_def Let_def TM_CCOEFF_def TM_SQDIFF_def
        TM_SQDIFF_NORMED_def)

section \<open>Runtime: mouse and keyboard\<close>

text \<open>\<^verbatim>\<open>move_mouse\<close> and \<^verbatim>\<open>type_text\<close> pass \<^verbatim>\<open>max(0.0, float(...))\<close> on.\<close>

lemma move_mouse_clamps: "io_log (move_mouse x y duration rt) = io_log rt @ [MoveTo x y (max 0 duration)]"
  by (simp add: move_mouse_def)

lemma type_text_clamps: "io_log (type_text text interval rt) = io_log rt @ [Typewrite text (max 0 interval)]"
  by (simp add: type_text_def)

text \<open>
  Claim C7. The claim is that no negative duration or interval reaches the input-injection
  provider. \<^verbatim>\<open>click_at\<close> hands its interval to \<^verbatim>\<open>pyautogui.click\<close> as it is: called with the
  interval \<open>-1\<close> it forwards \<open>-1\<close>, and so does a \<^verbatim>\<open>CLICK_AT\<close> action whose parameter
  \<^verbatim>\<open>interval\<close> is \<open>-1.0\<close>, run through \<^verbatim>\<open>_execute_action\<close>.
\<close>

theorem click_at_forwards_negative_interval:
  "io_log (click_at 10 20 ''left'' 2 (- 1) init_runtime) = [Click 10 20 2 ''left'' (- 1)] \<and>
   io_log (runtime (snd (execute_action demo_world 0 False
      (init_gui [\<lparr>type = PStr ''CLICK_AT'',
                  params = PDict [(''x'', PInt 10), (''y'', PInt 20), (''clicks'', PInt 2),
                                  (''interval'', PFloat (- 1))]\<rparr>]))))
     = [Click 10 20 2 ''left'' (- 1)]"
  by (simp add: click_at_def init_runtime_def init_gui_def execute_action_def dispatch_def
        exec_CLICK_AT_def bindE_def demo_world_def)

text \<open>
  Claim C6. With no match stored, \<^verbatim>\<open>click_match\<close> returns \<^verbatim>\<open>False\<close> and leaves the runtime
  as it is, the log of provider calls included: nothing is injected. With a match \<open>m\<close>
  stored it returns \<^verbatim>\<open>True\<close> after exactly one click, at the top-left corner of \<open>m\<close>, plus
  half of the width and of the height (integer division) when \<open>center\<close> is set, plus the
  offset.
\<close>

theorem click_match_point:
  "(last_match rt = None \<longrightarrow>
      click_match button clicks interval center offset rt = (False, rt)) \<and>
   (last_match rt = Some m \<longrightarrow>
      click_match button clicks interval center offset rt =
        (True, rt\<lparr>io_log := io_log rt @
           [Click (m_x m + (if center then m_w m div 2 else 0) + fst offset)
                  (m_y m + (if center then m_h m div 2 else 0) + snd offset)
                  clicks button interval]\<rparr>))"
  by (simp add: click_match_def Let_def)

text \<open>No match: no click. Match at (5, 6) of size 10 by 8, offset (1, -2): click at (11, 8).\<close>

theorem click_match_point_witness:
  "click_match ''left'' 1 (5 / 100) True (1, - 2) init_runtime = (False, init_runtime) \<and>
   click_match ''left'' 1 (5 / 100) True (1, - 2) stale_runtime =
     (True, stale_runtime\<lparr>io_log := [Click 11 8 1 ''left'' (5 / 100)]\<rparr>)"
  using click_match_point [where rt = init_runtime and button = "''left''" and clicks = 1
      and interval = "5 / 100" and center = True and offset = "(1, - 2)" and m = old_match]
    click_match_point [where rt = stale_runtime and button = "''left''" and clicks = 1
      and interval = "5 / 100" and center = True and offset = "(1, - 2)" and m = old_match]
  by (simp add: init_runtime_def stale_runtime_def old_match_def)

section \<open>Runtime: checking a pixel\<close>

text \<open>
  Claim C5. Let the capture be the cached frame, or the frame taken now when the cache is
  empty. For a coordinate inside the capture, \<^verbatim>\<open>check_pixel\<close> is true exactly when the red,
  the green and the blue channel of the pixel each differ from the target by at most
  \<open>tolerance\<close> (a difference equal to the tolerance counts); for a coordinate outside it is
  false.
\<close>

theorem check_pixel_inclusive:
  "(0 \<le> x \<and> x < int (img_w (fst (ensure_screenshot wd rt))) \<and>
    0 \<le> y \<and> y < int (img_h (fst (ensure_screenshot wd rt))) \<longrightarrow>
      fst (check_pixel wd x y r g b tolerance rt) =
        (case img_px (fst (ensure_screenshot wd rt)) (nat y) (nat x) of
           (cb, cg, cr) \<Rightarrow>
             \<bar>uint cr - r\<bar> \<le> tolerance \<and> \<bar>uint cg - g\<bar> \<le> tolerance \<and> \<bar>uint cb - b\<bar> \<le> tolerance)) \<and>
   (\<not> (0 \<le> x \<and> x < int (img_w (fst (ensure_screenshot wd rt))) \<and>
        0 \<le> y \<and> y < int (img_h (fst (ensure_screenshot wd rt)))) \<longrightarrow>
      fst (check_pixel wd x y r g b tolerance rt) = False)"
  by (cases "ensure_screenshot wd rt")
    (auto simp: check_pixel_def Let_def split: prod.splits)

text \<open>
  The pixel is red 30, green 20, blue 10 and the tolerance 5: a target red of 35 is
  accepted (difference exactly 5), a target red of 36 is not, and column 3 is outside a
  frame of width 3.
\<close>

theorem check_pixel_inclusive_witness:
  "fst (check_pixel demo_world 2 1 35 20 10 5 init_runtime) = True \<and>
   fst (check_pixel demo_world 2 1 36 20 10 5 init_runtime) = False \<and>
   fst (check_pixel demo_world 3 1 35 20 10 5 init_runtime) = False"
  using check_pixel_inclusive [where wd = demo_world and rt = init_runtime and x = 2 and y = 1
      and r = 35 and g = 20 and b = 10 and tolerance = 5]
    check_pixel_inclusive [where wd = demo_world and rt = init_runtime and x = 2 and y = 1
      and r = 36 and g = 20 and b = 10 and tolerance = 5]
    check_pixel_inclusive [where wd = demo_world and rt = init_runtime and x = 3 and y = 1
      and r = 35 and g = 20 and b = 10 and tolerance = 5]
  by (simp add: ensure_screenshot_def take_screenshot_def init_runtime_def demo_world_def
        demo_image_def Let_def)

section \<open>The interpreter: one pass of the loop\<close>

lemma execute_action_actions: "actions (snd (execute_action wd i tm g)) = actions g"
  using execute_action_frame [of g wd i tm] by (simp add: same_frame_def)

lemma execute_action_stop:
  "stop_requested (runtime (snd (execute_action wd i tm g))) = stop_requested (runtime g)"
  using execute_action_frame [of g wd i tm] by (simp add: same_frame_def)

text \<open>
  The three ways through one pass: the \<^verbatim>\<open>while\<close> condition fails; the flag is seen at the
  poll; an action is executed and \<^verbatim>\<open>i\<close> is advanced or redirected.
\<close>

lemma runner_loop_from_exit:
  "\<not> i < int (length (actions g)) \<Longrightarrow>
   runner_loop_from wd ctl (Suc fuel) k i tr g =
     Some \<lparr>outcome = Done, pc = i, final = set_status ''Done'' g, executed = tr\<rparr>"
  by simp

lemma runner_loop_from_stop:
  "i < int (length (actions g)) \<Longrightarrow> ctl k \<or> stop_requested (runtime g) \<Longrightarrow>
   runner_loop_from wd ctl (Suc fuel) k i tr g =
     Some \<lparr>outcome = Stopped, pc = i,
           final = set_status ''Stopped'' (if ctl k then on_runtime request_stop g else g),
           executed = tr\<rparr>"
  by (auto simp: should_stop_def request_stop_def)

lemma runner_loop_from_exec:
  assumes "i < int (length (actions g))" and "\<not> ctl k" and "\<not> stop_requested (runtime g)"
  shows "runner_loop_from wd ctl (Suc fuel) k i tr g =
     runner_loop_from wd ctl fuel (Suc k)
       (next_index (fst (execute_action wd i False g)) (int (length (actions g))) i)
       (tr @ [i]) (snd (execute_action wd i False g))"
proof -
  obtain jumped g2 where e: "execute_action wd i False g = (jumped, g2)"
    by (cases "execute_action wd i False g")
  then have "actions g2 = actions g"
    using execute_action_actions [of wd i False g] by simp
  then show ?thesis
    using assms e by (cases jumped) (simp_all add: should_stop_def next_index_def)
qed

declare runner_loop_from.simps(2) [simp del]

lemma next_index_bounds:
  "0 \<le> i \<Longrightarrow> i < n \<Longrightarrow> 0 \<le> next_index jumped n i \<and> next_index jumped n i \<le> n"
  by (cases jumped) (auto simp: next_index_def)

text \<open>Fuel only bounds the number of passes: more of it does not change a result.\<close>

lemma runner_loop_from_fuel:
  "runner_loop_from wd ctl fuel k i tr g = Some res \<Longrightarrow>
   runner_loop_from wd ctl (fuel + m) k i tr g = Some res"
proof (induction fuel arbitrary: k i tr g)
  case 0
  then show ?case by simp
next
  case (Suc fuel)
  show ?case
  proof (cases "i < int (length (actions g))")
    case False
    then show ?thesis
      using Suc.prems by (simp add: runner_loop_from_exit)
  next
    case True
    show ?thesis
    proof (cases "ctl k \<or> stop_requested (runtime g)")
      case stop: True
      have "\<And>n. runner_loop_from wd ctl (Suc n) k i tr g =
          Some \<lparr>outcome = Stopped, pc = i,
           final = set_status ''Stopped'' (if ctl k then on_runtime request_stop g else g),
           executed = tr\<rparr>"
        using True stop by (rule runner_loop_from_stop)
      then show ?thesis
        using Suc.prems by simp
    next
      case False
      let ?g2 = "snd (execute_action wd i False g)"
      let ?i' = "next_index (fst (execute_action wd i False g)) (int (length (actions g))) i"
      have step: "\<And>n. runner_loop_from wd ctl (Suc n) k i tr g =
          runner_loop_from wd ctl n (Suc k) ?i' (tr @ [i]) ?g2"
        using runner_loop_from_exec [of i g ctl k wd _ tr, OF True] False by simp
      have "runner_loop_from wd ctl fuel (Suc k) ?i' (tr @ [i]) ?g2 = Some res"
        using Suc.prems step by simp
      then have "runner_loop_from wd ctl (fuel + m) (Suc k) ?i' (tr @ [i]) ?g2 = Some res"
        by (rule Suc.IH)
      then show ?thesis
        using step [of "fuel + m"] by simp
    qed
  qed
qed

section \<open>The interpreter: invariants of a run\<close>

lemma runner_loop_from_pc:
  "runner_loop_from wd ctl fuel k i tr g = Some res \<Longrightarrow>
   0 \<le> i \<Longrightarrow> i \<le> int (length (actions g)) \<Longrightarrow>
   0 \<le> pc res \<and> pc res \<le> int (length (actions g)) \<and> actions (final res) = actions g \<and>
   (outcome res = Done \<longrightarrow> pc res = int (length (actions g)) \<and> status (final res) = ''Done'') \<and>
   (outcome res = Stopped \<longrightarrow>
      pc res < int (length (actions g)) \<and> status (final res) = ''Stopped'')"
proof (induction fuel arbitrary: k i tr g)
  case 0
  then show ?case by simp
next
  case (Suc fuel)
  show ?case
  proof (cases "i < int (length (actions g))")
    case False
    with Suc.prems show ?thesis
      by (auto simp: runner_loop_from_exit)
  next
    case True
    show ?thesis
    proof (cases "ctl k \<or> stop_requested (runtime g)")
      case stop: True
      have "runner_loop_from wd ctl (Suc fuel) k i tr g =
          Some \<lparr>outcome = Stopped, pc = i,
           final = set_status ''Stopped'' (if ctl k then on_runtime request_stop g else g),
           executed = tr\<rparr>"
        using True stop by (rule runner_loop_from_stop)
      then have "res = \<lparr>outcome = Stopped, pc = i,
           final = set_status ''Stopped'' (if ctl k then on_runtime request_stop g else g),
           executed = tr\<rparr>"
        using Suc.prems(1) by simp
      then show ?thesis
        using True Suc.prems(2) by simp
    next
      case False
      let ?g2 = "snd (execute_action wd i False g)"
      let ?i' = "next_index (fst (execute_action wd i False g)) (int (length (actions g))) i"
      have run: "runner_loop_from wd ctl fuel (Suc k) ?i' (tr @ [i]) ?g2 = Some res"
        using Suc.prems(1) runner_loop_from_exec [of i g ctl k wd fuel tr, OF True] False by simp
      have a: "actions ?g2 = actions g"
        by (rule execute_action_actions)
      have b: "0 \<le> ?i' \<and> ?i' \<le> int (length (actions g))"
        using next_index_bounds [OF Suc.prems(2) True] by simp
      show ?thesis
        using Suc.IH [OF run] a b by simp
    qed
  qed
qed

lemma runner_loop_from_executed:
  "runner_loop_from wd ctl fuel k i tr g = Some res \<Longrightarrow>
   0 \<le> i \<Longrightarrow> i \<le> int (length (actions g)) \<Longrightarrow>
   (\<forall>j \<in> set tr. 0 \<le> j \<and> j < int (length (actions g))) \<Longrightarrow>
   (\<forall>j \<in> set (executed res). 0 \<le> j \<and> j < int (length (actions g)))"
proof (induction fuel arbitrary: k i tr g)
  case 0
  then show ?case by simp
next
  case (Suc fuel)
  show ?case
  proof (cases "i < int (length (actions g))")
    case False
    then have "runner_loop_from wd ctl (Suc fuel) k i tr g =
        Some \<lparr>outcome = Done, pc = i, final = set_status ''Done'' g, executed = tr\<rparr>"
      by (rule runner_loop_from_exit)
    then have "executed res = tr"
      using Suc.prems(1) by auto
    then show ?thesis
      using Suc.prems(4) by (simp only:)
  next
    case True
    show ?thesis
    proof (cases "ctl k \<or> stop_requested (runtime g)")
      case stop: True
      have "runner_loop_from wd ctl (Suc fuel) k i tr g =
          Some \<lparr>outcome = Stopped, pc = i,
           final = set_status ''Stopped'' (if ctl k then on_runtime request_stop g else g),
           executed = tr\<rparr>"
        using True stop by (rule runner_loop_from_stop)
      then have "executed res = tr"
        using Suc.prems(1) by auto
      then show ?thesis
        using Suc.prems(4) by (simp only:)
    next
      case False
      let ?g2 = "snd (execute_action wd i False g)"
      let ?i' = "next_index (fst (execute_action wd i False g)) (int (length (actions g))) i"
      have run: "runner_loop_from wd ctl fuel (Suc k) ?i' (tr @ [i]) ?g2 = Some res"
        using Suc.prems(1) runner_loop_from_exec [of i g ctl k wd fuel tr, OF True] False by simp
      have a: "actions ?g2 = actions g"
        by (rule execute_action_actions)
      have b1: "0 \<le> ?i'" and b2: "?i' \<le> int (length (actions ?g2))"
        using next_index_bounds [OF Suc.prems(2) True] a by simp_all
      have "0 \<le> i \<and> i < int (length (actions g))"
        using Suc.prems(2) True by simp
      then have c: "\<forall>j \<in> set (tr @ [i]). 0 \<le> j \<and> j < int (length (actions ?g2))"
        using Suc.prems(4) unfolding a by auto
      have "\<forall>j \<in> set (executed res). 0 \<le> j \<and> j < int (length (actions ?g2))"
        by (rule Suc.IH [OF run b1 b2 c])
      then show ?thesis
        unfolding a .
    qed
  qed
qed

section \<open>The interpreter: jumps\<close>

text \<open>Only \<^verbatim>\<open>IF_GOTO\<close> returns a jump target.\<close>

lemma no_jump_simps [simp]: "no_jump (Inl e, g)" "no_jump (Inr None, g)"
  by (simp_all add: no_jump_def)

lemma exec_WAIT_no_jump: "no_jump (exec_WAIT wd index p g)"
  by (simp add: exec_WAIT_def split: sum.splits)

lemma exec_SCREENSHOT_no_jump: "no_jump (exec_SCREENSHOT wd index g)"
  by (simp add: exec_SCREENSHOT_def)

lemma exec_LOAD_TEMPLATE_no_jump: "no_jump (exec_LOAD_TEMPLATE wd index tm p g)"
  by (simp add: exec_LOAD_TEMPLATE_def Let_def split: sum.splits prod.splits)

lemma exec_FIND_TEMPLATE_no_jump: "no_jump (exec_FIND_TEMPLATE wd index p g)"
  by (simp add: exec_FIND_TEMPLATE_def Let_def split: sum.splits prod.splits option.splits)

lemma exec_CLICK_MATCH_no_jump: "no_jump (exec_CLICK_MATCH wd index p g)"
  by (simp add: exec_CLICK_MATCH_def Let_def split: sum.splits prod.splits)

lemma exec_CLICK_AT_no_jump: "no_jump (exec_CLICK_AT wd index p g)"
  by (simp add: exec_CLICK_AT_def split: sum.splits prod.splits)

lemma exec_MOVE_MOUSE_no_jump: "no_jump (exec_MOVE_MOUSE wd index p g)"
  by (simp add: exec_MOVE_MOUSE_def split: sum.splits prod.splits)

lemma exec_CHECK_PIXEL_no_jump: "no_jump (exec_CHECK_PIXEL wd index p g)"
  by (simp add: exec_CHECK_PIXEL_def Let_def split: sum.splits prod.splits)

lemma exec_SET_VAR_no_jump: "no_jump (exec_SET_VAR wd index p g)"
  by (simp add: exec_SET_VAR_def split: sum.splits prod.splits)

lemma exec_PRESS_KEY_no_jump: "no_jump (exec_PRESS_KEY wd index p g)"
  by (simp add: exec_PRESS_KEY_def split: sum.splits)

lemma exec_TYPE_TEXT_no_jump: "no_jump (exec_TYPE_TEXT wd index p g)"
  by (simp add: exec_TYPE_TEXT_def split: sum.splits prod.splits)

lemma dispatch_jump_only_IF_GOTO:
  "type act \<noteq> PStr ''IF_GOTO'' \<Longrightarrow> no_jump (dispatch wd index tm act g)"
  unfolding dispatch_def Let_def
  by (simp add: exec_WAIT_no_jump exec_SCREENSHOT_no_jump exec_LOAD_TEMPLATE_no_jump
        exec_FIND_TEMPLATE_no_jump exec_CLICK_MATCH_no_jump exec_CLICK_AT_no_jump
        exec_MOVE_MOUSE_no_jump exec_CHECK_PIXEL_no_jump exec_SET_VAR_no_jump
        exec_PRESS_KEY_no_jump exec_TYPE_TEXT_no_jump)

lemma execute_action_jump_only_IF_GOTO:
  assumes "fst (execute_action wd i tm g) = Some t"
  shows "0 \<le> i \<and> i < int (length (actions g)) \<and> type (actions g ! nat i) = PStr ''IF_GOTO''"
proof -
  have r: "0 \<le> i \<and> i < int (length (actions g))"
    using assms by (auto simp: execute_action_def split: if_splits)
  have "type (actions g ! nat i) = PStr ''IF_GOTO''"
  proof (rule ccontr)
    assume "type (actions g ! nat i) \<noteq> PStr ''IF_GOTO''"
    then have "no_jump (dispatch wd i tm (actions g ! nat i) g)"
      by (rule dispatch_jump_only_IF_GOTO)
    then have "fst (execute_action wd i tm g) = None"
      using r by (cases "dispatch wd i tm (actions g ! nat i) g")
        (auto simp: execute_action_def no_jump_def Let_def split: sum.splits)
    then show False
      using assms by simp
  qed
  then show ?thesis
    using r by simp
qed

text \<open>And it does so when its condition evaluates to true.\<close>

lemma execute_action_IF_GOTO:
  assumes "0 \<le> i" and "i < int (length (actions g))"
    and "type (actions g ! nat i) = PStr ''IF_GOTO''"
    and "params (actions g ! nat i) = PDict kvs"
    and "py_int wd (case map_of kvs ''index'' of None \<Rightarrow> PInt 0 | Some v \<Rightarrow> v) = Inr t"
    and "eval_bool wd (py_str wd (case map_of kvs ''expr'' of None \<Rightarrow> PStr ''False'' | Some v \<Rightarrow> v))
           (vars (runtime g)) (last_match (runtime g)) = Some True"
  shows "fst (execute_action wd i tm g) = Some t"
  using assms
  by (simp add: execute_action_def dispatch_def exec_IF_GOTO_def bindE_def Let_def)

text \<open>
  Claim C1. Take a pass of the loop at an index \<open>i\<close> of the script, with no stop seen, whose
  action is an \<^verbatim>\<open>IF_GOTO\<close> with raw target \<open>t\<close> and a condition that evaluates to true. Then
  the loop goes on at \<open>max 0 (min (len - 1) t)\<close>, which is an index of the script whatever
  \<open>t\<close> is. And in every run that leaves the loop, under every stop schedule, each index
  that was handed to \<^verbatim>\<open>_execute_action\<close> is an index of the script; since a stop can be
  scheduled at any pass, this covers every prefix of a run that goes on for ever.
\<close>

theorem if_goto_resumes_at_clamped_target:
  assumes "0 \<le> i" and "i < int (length (actions g))"
    and "\<not> ctl k" and "\<not> stop_requested (runtime g)"
    and "type (actions g ! nat i) = PStr ''IF_GOTO''"
    and "params (actions g ! nat i) = PDict kvs"
    and "py_int wd (case map_of kvs ''index'' of None \<Rightarrow> PInt 0 | Some v \<Rightarrow> v) = Inr t"
    and "eval_bool wd (py_str wd (case map_of kvs ''expr'' of None \<Rightarrow> PStr ''False'' | Some v \<Rightarrow> v))
           (vars (runtime g)) (last_match (runtime g)) = Some True"
  shows "runner_loop_from wd ctl (Suc fuel) k i tr g =
           runner_loop_from wd ctl fuel (Suc k)
             (max 0 (min (int (length (actions g)) - 1) t)) (tr @ [i])
             (snd (execute_action wd i False g)) \<and>
         0 \<le> max 0 (min (int (length (actions g)) - 1) t) \<and>
         max 0 (min (int (length (actions g)) - 1) t)
           < int (length (actions (snd (execute_action wd i False g)))) \<and>
         (runner_loop wd ctl' n g0 = Some res \<longrightarrow>
            (\<forall>j \<in> set (executed res). 0 \<le> j \<and> j < int (length (actions g0))))"
proof -
  have j: "fst (execute_action wd i False g) = Some t"
    using assms(1,2,5,6,7,8) by (rule execute_action_IF_GOTO)
  have "runner_loop_from wd ctl (Suc fuel) k i tr g =
        runner_loop_from wd ctl fuel (Suc k)
          (next_index (fst (execute_action wd i False g)) (int (length (actions g))) i)
          (tr @ [i]) (snd (execute_action wd i False g))"
    using assms(2,3,4) by (rule runner_loop_from_exec)
  then have step: "runner_loop_from wd ctl (Suc fuel) k i tr g =
           runner_loop_from wd ctl fuel (Suc k)
             (max 0 (min (int (length (actions g)) - 1) t)) (tr @ [i])
             (snd (execute_action wd i False g))"
    by (simp add: j next_index_def)
  have bounds: "0 \<le> max 0 (min (int (length (actions g)) - 1) t) \<and>
         max 0 (min (int (length (actions g)) - 1) t)
           < int (length (actions (snd (execute_action wd i False g))))"
    unfolding execute_action_actions using assms(1,2) by auto
  have run: "runner_loop wd ctl' n g0 = Some res \<longrightarrow>
            (\<forall>j \<in> set (executed res). 0 \<le> j \<and> j < int (length (actions g0)))"
  proof
    assume "runner_loop wd ctl' n g0 = Some res"
    then have r: "runner_loop_from wd ctl' n 0 0 [] (set_status ''Running'' g0) = Some res"
      by (simp add: runner_loop_def)
    have "\<forall>j \<in> set (executed res).
            0 \<le> j \<and> j < int (length (actions (set_status ''Running'' g0)))"
      by (rule runner_loop_from_executed [OF r]) simp_all
    then show "\<forall>j \<in> set (executed res). 0 \<le> j \<and> j < int (length (actions g0))"
      by simp
  qed
  show ?thesis
    using step bounds run by blast
qed

text \<open>
  The first script: the jump to 99 from action 0 lands on action 2, the last one, and the
  run executes the actions 0 and 2.
\<close>

theorem if_goto_resumes_at_clamped_target_witness:
  "runner_loop_from demo_world (\<lambda>k. False) (Suc 2) 0 0 [] (init_gui jump_script) =
     runner_loop_from demo_world (\<lambda>k. False) 2 (Suc 0) 2 [0]
       (snd (execute_action demo_world 0 False (init_gui jump_script))) \<and>
   map_option executed (runner_loop demo_world (\<lambda>k. False) (Suc (Suc (Suc (Suc 0))))
       (init_gui jump_script)) = Some [0, 2]"
proof -
  have run: "runner_loop demo_world (\<lambda>k. False) (Suc (Suc (Suc (Suc 0)))) (init_gui jump_script)
      = Some \<lparr>outcome = Done, pc = 3,
           final = set_status ''Done''
             (snd (execute_action demo_world 2 False
               (snd (execute_action demo_world 0 False
                  (set_status ''Running'' (init_gui jump_script)))))),
           executed = [0, 2]\<rparr>"
    by (simp add: runner_loop_def runner_loop_from.simps(2) should_stop_def init_gui_def
        init_runtime_def jump_script_def execute_action_def dispatch_def exec_IF_GOTO_def
        exec_PRESS_KEY_def bindE_def demo_world_def set_status_def on_runtime_def
        press_key_def Let_def)
  show ?thesis
    using run
      if_goto_resumes_at_clamped_target [where wd = demo_world and ctl = "\<lambda>k. False"
        and g = "init_gui jump_script" and i = 0 and k = 0 and fuel = 2 and tr = "[]"
        and t = 99 and kvs = "[(''expr'', PStr ''last_match is None''), (''index'', PInt 99)]"
        and ctl' = "\<lambda>k. False" and n = "Suc (Suc (Suc (Suc 0)))"
        and ?g0.0 = "init_gui jump_script"]
    by (simp add: init_gui_def init_runtime_def jump_script_def demo_world_def)
qed

text \<open>
  Claim C2. In every run that leaves the loop, the final counter lies in \<open>[0, len]\<close> (a
  stop can be scheduled at any pass, so this holds for the counter at every pass), and when
  the run ends normally the counter is exactly the length of the script and the status is
  \<^verbatim>\<open>Done\<close>.
\<close>

theorem run_done_pc_is_length:
  assumes "runner_loop wd ctl fuel g = Some res"
  shows "0 \<le> pc res \<and> pc res \<le> int (length (actions g)) \<and>
         (outcome res = Done \<longrightarrow>
            pc res = int (length (actions g)) \<and> status (final res) = ''Done'')"
proof -
  have r: "runner_loop_from wd ctl fuel 0 0 [] (set_status ''Running'' g) = Some res"
    using assms by (simp add: runner_loop_def)
  have "0 \<le> pc res \<and> pc res \<le> int (length (actions (set_status ''Running'' g))) \<and>
     actions (final res) = actions (set_status ''Running'' g) \<and>
     (outcome res = Done \<longrightarrow>
        pc res = int (length (actions (set_status ''Running'' g))) \<and>
        status (final res) = ''Done'') \<and>
     (outcome res = Stopped \<longrightarrow>
        pc res < int (length (actions (set_status ''Running'' g))) \<and>
        status (final res) = ''Stopped'')"
    by (rule runner_loop_from_pc [OF r]) simp_all
  then show ?thesis
    by simp
qed

text \<open>The first script ends normally with the counter at 3, its length.\<close>

theorem run_done_pc_is_length_witness:
  "map_option outcome (runner_loop demo_world (\<lambda>k. False) (Suc (Suc (Suc (Suc 0))))
       (init_gui jump_script)) = Some Done \<and>
   map_option pc (runner_loop demo_world (\<lambda>k. False) (Suc (Suc (Suc (Suc 0))))
       (init_gui jump_script)) = Some 3 \<and>
   int (length (actions (init_gui jump_script))) = 3"
proof -
  have run: "runner_loop demo_world (\<lambda>k. False) (Suc (Suc (Suc (Suc 0)))) (init_gui jump_script)
      = Some \<lparr>outcome = Done, pc = 3,
           final = set_status ''Done''
             (snd (execute_action demo_world 2 False
               (snd (execute_action demo_world 0 False
                  (set_status ''Running'' (init_gui jump_script)))))),
           executed = [0, 2]\<rparr>"
    by (simp add: runner_loop_def runner_loop_from.simps(2) should_stop_def init_gui_def
        init_runtime_def jump_script_def execute_action_def dispatch_def exec_IF_GOTO_def
        exec_PRESS_KEY_def bindE_def demo_world_def set_status_def on_runtime_def
        press_key_def Let_def)
  show ?thesis
    using run run_done_pc_is_length [OF run]
    by (simp add: init_gui_def jump_script_def)
qed

section \<open>The interpreter: stopping\<close>

lemma runner_loop_from_halts:
  "ctl (k + n) \<Longrightarrow> n < fuel \<Longrightarrow>
   \<exists>res. runner_loop_from wd ctl fuel k i tr g = Some res \<and>
         length (executed res) \<le> length tr + n"
proof (induction n arbitrary: fuel k i tr g)
  case 0
  then obtain f where f: "fuel = Suc f"
    by (cases fuel) auto
  show ?case
  proof (cases "i < int (length (actions g))")
    case False
    then show ?thesis
      by (simp add: f runner_loop_from_exit)
  next
    case True
    have "ctl k \<or> stop_requested (runtime g)"
      using "0.prems"(1) by simp
    with True have "runner_loop_from wd ctl (Suc f) k i tr g =
          Some \<lparr>outcome = Stopped, pc = i,
           final = set_status ''Stopped'' (if ctl k then on_runtime request_stop g else g),
           executed = tr\<rparr>"
      by (rule runner_loop_from_stop)
    then show ?thesis
      by (simp add: f)
  qed
next
  case (Suc n)
  then obtain f where f: "fuel = Suc f" and nf: "n < f"
    by (cases fuel) auto
  show ?case
  proof (cases "i < int (length (actions g))")
    case False
    then show ?thesis
      by (simp add: f runner_loop_from_exit)
  next
    case True
    show ?thesis
    proof (cases "ctl k \<or> stop_requested (runtime g)")
      case stop: True
      with True have "runner_loop_from wd ctl (Suc f) k i tr g =
          Some \<lparr>outcome = Stopped, pc = i,
           final = set_status ''Stopped'' (if ctl k then on_runtime request_stop g else g),
           executed = tr\<rparr>"
        by (rule runner_loop_from_stop)
      then show ?thesis
        by (simp add: f)
    next
      case False
      let ?g2 = "snd (execute_action wd i False g)"
      let ?i' = "next_index (fst (execute_action wd i False g)) (int (length (actions g))) i"
      have step: "runner_loop_from wd ctl (Suc f) k i tr g =
          runner_loop_from wd ctl f (Suc k) ?i' (tr @ [i]) ?g2"
        using runner_loop_from_exec [of i g ctl k wd f tr, OF True] False by simp
      have "ctl (Suc k + n)"
        using Suc.prems(1) by simp
      then have "\<exists>res. runner_loop_from wd ctl f (Suc k) ?i' (tr @ [i]) ?g2 = Some res \<and>
         length (executed res) \<le> length (tr @ [i]) + n"
        using nf by (rule Suc.IH)
      then show ?thesis
        by (simp add: f step)
    qed
  qed
qed

lemma runner_loop_from_not_stopped_early:
  "runner_loop_from wd ctl fuel k i tr g = Some res \<Longrightarrow> outcome res = Stopped \<Longrightarrow>
   \<not> stop_requested (runtime g) \<Longrightarrow> (\<forall>j<n. \<not> ctl (k + j)) \<Longrightarrow>
   length tr + n \<le> length (executed res)"
proof (induction fuel arbitrary: k i tr g n)
  case 0
  then show ?case by simp
next
  case (Suc fuel)
  show ?case
  proof (cases "i < int (length (actions g))")
    case False
    then have "runner_loop_from wd ctl (Suc fuel) k i tr g =
        Some \<lparr>outcome = Done, pc = i, final = set_status ''Done'' g, executed = tr\<rparr>"
      by (rule runner_loop_from_exit)
    then have "outcome res = Done"
      using Suc.prems(1) by auto
    then show ?thesis
      using Suc.prems(2) by simp
  next
    case True
    show ?thesis
    proof (cases "ctl k")
      case stop: True
      then have "ctl k \<or> stop_requested (runtime g)"
        by simp
      with True have "runner_loop_from wd ctl (Suc fuel) k i tr g =
          Some \<lparr>outcome = Stopped, pc = i,
           final = set_status ''Stopped'' (if ctl k then on_runtime request_stop g else g),
           executed = tr\<rparr>"
        by (rule runner_loop_from_stop)
      then have e: "executed res = tr"
        using Suc.prems(1) by auto
      have "n = 0"
      proof (rule ccontr)
        assume "n \<noteq> 0"
        then have "0 < n" by simp
        then have "\<not> ctl (k + 0)"
          using Suc.prems(4) by blast
        then show False
          using stop by simp
      qed
      then show ?thesis
        using e by simp
    next
      case False
      let ?g2 = "snd (execute_action wd i False g)"
      let ?i' = "next_index (fst (execute_action wd i False g)) (int (length (actions g))) i"
      have run: "runner_loop_from wd ctl fuel (Suc k) ?i' (tr @ [i]) ?g2 = Some res"
        using Suc.prems(1) runner_loop_from_exec [of i g ctl k wd fuel tr, OF True False]
          Suc.prems(3) by simp
      have flag: "\<not> stop_requested (runtime ?g2)"
        using Suc.prems(3) by (simp add: execute_action_stop)
      have later: "\<forall>j<n - 1. \<not> ctl (Suc k + j)"
      proof (intro allI impI)
        fix j
        assume "j < n - 1"
        then have "Suc j < n" by simp
        then have "\<not> ctl (k + Suc j)"
          using Suc.prems(4) by blast
        then show "\<not> ctl (Suc k + j)" by simp
      qed
      have "length (tr @ [i]) + (n - 1) \<le> length (executed res)"
        by (rule Suc.IH [OF run Suc.prems(2) flag later])
      then show ?thesis
        by simp
    qed
  qed
qed

text \<open>
  Claim C9. Let a stop request land before the poll of pass \<open>k\<close>. Then the run leaves the
  loop within \<open>k + 1\<close> passes, whatever the script does, and at most \<open>k\<close> actions have been
  executed: none is dispatched in pass \<open>k\<close> or later. When the run is stopped its status is
  \<^verbatim>\<open>Stopped\<close>; and when this request is the first one, a stopped run has executed exactly
  the \<open>k\<close> actions of the passes before, so the action in flight when the request came was
  completed and nothing after it was started.
\<close>

theorem stop_request_ends_run:
  assumes "ctl k" and "k < fuel"
  shows "\<exists>res. runner_loop wd ctl fuel g = Some res \<and>
           length (executed res) \<le> k \<and>
           (outcome res = Stopped \<longrightarrow> status (final res) = ''Stopped'') \<and>
           (outcome res = Stopped \<and> \<not> stop_requested (runtime g) \<and> (\<forall>j<k. \<not> ctl j) \<longrightarrow>
              length (executed res) = k)"
proof -
  let ?g = "set_status ''Running'' g"
  have "ctl (0 + k)"
    using assms(1) by simp
  then have "\<exists>res. runner_loop_from wd ctl fuel 0 0 [] ?g = Some res \<and>
         length (executed res) \<le> length ([] :: int list) + k"
    using assms(2) by (rule runner_loop_from_halts)
  then obtain res where r: "runner_loop_from wd ctl fuel 0 0 [] ?g = Some res"
    and le: "length (executed res) \<le> k"
    by auto
  have st: "outcome res = Stopped \<longrightarrow> status (final res) = ''Stopped''"
    using runner_loop_from_pc [OF r] by simp
  have ex: "outcome res = Stopped \<and> \<not> stop_requested (runtime g) \<and> (\<forall>j<k. \<not> ctl j) \<longrightarrow>
              length (executed res) = k"
  proof
    assume a: "outcome res = Stopped \<and> \<not> stop_requested (runtime g) \<and> (\<forall>j<k. \<not> ctl j)"
    then have o: "outcome res = Stopped" and f: "\<not> stop_requested (runtime ?g)"
      and c: "\<forall>j<k. \<not> ctl (0 + j)"
      by simp_all
    have "length ([] :: int list) + k \<le> length (executed res)"
      by (rule runner_loop_from_not_stopped_early [OF r o f c])
    then show "length (executed res) = k"
      using le by simp
  qed
  show ?thesis
    using r le st ex by (simp add: runner_loop_def)
qed

text \<open>
  The second script never ends by itself. With a stop request before the poll of pass 3
  the run is stopped after the actions 0, 1, 0.
\<close>

theorem stop_request_ends_run_witness:
  "map_option outcome (runner_loop demo_world (\<lambda>k. k = 3) (Suc (Suc (Suc (Suc 0))))
       (init_gui forever_script)) = Some Stopped \<and>
   map_option executed (runner_loop demo_world (\<lambda>k. k = 3) (Suc (Suc (Suc (Suc 0))))
       (init_gui forever_script)) = Some [0, 1, 0]"
proof -
  have run: "\<exists>res. runner_loop demo_world (\<lambda>k. k = 3) (Suc (Suc (Suc (Suc 0))))
       (init_gui forever_script) = Some res \<and> outcome res = Stopped \<and> executed res = [0, 1, 0]"
    by (simp add: runner_loop_def runner_loop_from.simps(2) should_stop_def init_gui_def
        init_runtime_def forever_script_def execute_action_def dispatch_def exec_IF_GOTO_def
        exec_PRESS_KEY_def bindE_def demo_world_def set_status_def on_runtime_def
        press_key_def request_stop_def Let_def)
  show ?thesis
    using run
      stop_request_ends_run [where ctl = "\<lambda>k. k = 3" and k = 3
        and fuel = "Suc (Suc (Suc (Suc 0)))" and wd = demo_world
        and g = "init_gui forever_script"]
    by auto
qed

end
